theory Spec2Isabelle
  imports Complex_Main "HOL-Library.AList"
begin

section \<open>JavaScript values and objects\<close>

text \<open>
  The GUI code is JavaScript. The values that the modelled functions read and write are
  primitives; numbers of the pagination and registry objects are integers (page numbers,
  page sizes, totals), so \<open>JNum\<close> carries an \<open>int\<close> and \<open>NaN\<close> does not occur there.
  An object is a finite map from property names to values: reading a property that is
  not set yields \<open>undefined\<close>. Property names inherited from a prototype
  (\<open>constructor\<close>, \<open>toString\<close>, ...) are not modelled: no modelled object is read
  at such a key.
\<close>

datatype jsval = JUndefined | JNull | JBool bool | JNum int | JStr string

type_synonym jsobject = "string \<rightharpoonup> jsval"

text \<open>\<open>ToBoolean\<close>: the values that count as true in \<open>||\<close>, \<open>&&\<close>, \<open>!\<close> and \<open>if\<close>.\<close>

fun truthy :: "jsval \<Rightarrow> bool" where
  "truthy JUndefined = False"
| "truthy JNull = False"
| "truthy (JBool b) = b"
| "truthy (JNum n) = (n \<noteq> 0)"
| "truthy (JStr s) = (s \<noteq> [])"

text \<open>\<open>a || b\<close> is \<open>a\<close> when \<open>a\<close> is truthy and \<open>b\<close> otherwise.\<close>

definition js_or :: "jsval \<Rightarrow> jsval \<Rightarrow> jsval" where
  "js_or a b = (if truthy a then a else b)"

text \<open>\<open>obj.key\<close>, and \<open>obj?.key\<close> for an object that may be \<open>undefined\<close> or \<open>null\<close>.\<close>

definition js_get :: "jsobject \<Rightarrow> string \<Rightarrow> jsval" where
  "js_get obj key = (case obj key of None \<Rightarrow> JUndefined | Some v \<Rightarrow> v)"

definition js_get_opt :: "jsobject option \<Rightarrow> string \<Rightarrow> jsval" where
  "js_get_opt obj key = (case obj of None \<Rightarrow> JUndefined | Some ob \<Rightarrow> js_get ob key)"

section \<open>Datatable: pagination and selection\<close>

text \<open>
  \<open>combinePagination(request, response)\<close> of \<open>Datatable.js\<close>. The object literal sets the
  five keys \<open>page_size\<close>, \<open>order_by\<close>, \<open>order\<close>, \<open>page\<close>, \<open>total\<close> (possibly to
  \<open>undefined\<close>); the two cursor keys are assigned only under \<open>if (!result.page)\<close>.
\<close>

definition combinePagination :: "jsobject \<Rightarrow> jsobject option \<Rightarrow> jsobject" where
  "combinePagination request response =
     (let result = [
            ''page_size'' \<mapsto> js_or (js_get request ''page_size'') (js_get_opt response ''page_size''),
            ''order_by'' \<mapsto> js_or (js_get request ''order_by'') (js_get_opt response ''order_by''),
            ''order'' \<mapsto> js_or (js_get request ''order'') (js_get_opt response ''order''),
            ''page'' \<mapsto> js_or (js_get request ''page'') (js_get_opt response ''page''),
            ''total'' \<mapsto> js_get_opt response ''total'']
      in if \<not> truthy (js_get result ''page'')
         then result(
            ''page_after_value'' \<mapsto>
               js_or (js_get request ''page_after_value'') (js_get_opt response ''page_after_value''),
            ''next_page_after_value'' \<mapsto> js_get_opt response ''next_page_after_value'')
         else result)"

text \<open>
  The pages of the API are counted from 1: a pagination object has a page number from 1,
  or no page.
\<close>

definition pageOrAbsent :: "jsval \<Rightarrow> bool" where
  "pageOrAbsent v = (case v of JUndefined \<Rightarrow> True | JNum n \<Rightarrow> 1 \<le> n | _ \<Rightarrow> False)"

text \<open>
  The selection of a table is the string \<open>'all'\<close> or an array of row objects.
  \<open>DatatableRow.handleSelect\<close> passes \<open>onSelectedChanged\<close> an updater of the selection;
  the updater is modelled, for the row of the component. Rows are compared by their
  \<open>entry_id\<close>; \<open>indexOf\<close> returns the first index of the value, or \<open>-1\<close>.
\<close>

datatype 'row selection = All | Rows "'row list"

fun indexOf :: "'a list \<Rightarrow> 'a \<Rightarrow> int" where
  "indexOf [] x = -1"
| "indexOf (y # ys) x =
     (if y = x then 0 else (let i = indexOf ys x in if i = -1 then -1 else i + 1))"

text \<open>\<open>xs.slice(i, j)\<close> and \<open>xs.slice(i)\<close> for indices that are not negative.\<close>

definition slice :: "'a list \<Rightarrow> nat \<Rightarrow> nat \<Rightarrow> 'a list" where
  "slice xs i j = take (j - i) (drop i xs)"

definition slice_from :: "'a list \<Rightarrow> nat \<Rightarrow> 'a list" where
  "slice_from xs i = drop i xs"

definition handleSelect :: "('row \<Rightarrow> 'id) \<Rightarrow> 'row \<Rightarrow> 'row selection \<Rightarrow> 'row selection" where
  "handleSelect entry_id row selected =
     (case selected of
        All \<Rightarrow> Rows [row]
      | Rows sel \<Rightarrow>
          (let index = indexOf (map entry_id sel) (entry_id row)
           in if index > -1
              then Rows (slice sel 0 (nat index) @ slice_from sel (nat index + 1))
              else Rows (sel @ [row])))"

section \<open>The filter registry\<close>

text \<open>
  The registry module keeps four containers, filled while the module loads:
  \<open>filterGroups\<close> (group name to the set of its filter names), \<open>filterAbbreviations\<close>
  (full name to abbreviation), \<open>filterFullnames\<close> (abbreviation to full name) and
  \<open>filterData\<close> (full name to the data object of the filter). \<open>filterData\<close> is an
  association list in insertion order, the order of \<open>Object.keys\<close>; a \<open>Set\<close> is a list
  without duplicates in insertion order.

  Of the data object, the fields that depend on the configuration alone are modelled:
  \<open>multiple\<close>, \<open>exclusive\<close>, \<open>scale\<close>, \<open>queryMode\<close>, \<open>global\<close> and \<open>default\<close>.
  The others (\<open>options\<close>, \<open>aggs\<close>, \<open>value\<close>, \<open>unit\<close>, \<open>dtype\<close>, the serializers,
  \<open>dimension\<close>, \<open>label\<close>, \<open>nested\<close>, \<open>section\<close>, \<open>repeats\<close>, \<open>stats\<close>,
  \<open>description\<close>, \<open>resources\<close>) are computed from the metainfo table and helper modules
  and are read by no guard of \<open>saveFilter\<close>; they are left out, and so is the parameter
  \<open>parent\<close>'s only use, in \<open>stats\<close>. The helpers (\<open>getDatatype\<close>,
  \<open>getSerializer\<close>, \<open>getDeserializer\<close>, \<open>Unit\<close>, \<open>formatLabel\<close>) are taken to
  return.
\<close>

record registry =
  filterGroups :: "string \<rightharpoonup> string list"
  filterAbbreviations :: "string \<rightharpoonup> string"
  filterFullnames :: "string \<rightharpoonup> string"
  filterData :: "(string \<times> jsobject) list"

definition emptyRegistry :: registry where
  "emptyRegistry =
     \<lparr>filterGroups = Map.empty, filterAbbreviations = Map.empty,
      filterFullnames = Map.empty, filterData = []\<rparr>"

datatype js_error = Error string

text \<open>\<open>set.add(x)\<close>.\<close>

definition set_add :: "'a list \<Rightarrow> 'a \<Rightarrow> 'a list" where
  "set_add xs x = (if x \<in> set xs then xs else xs @ [x])"

text \<open>
  \<open>saveFilter(name, group, config, parent)\<close>. \<open>data\<close> is the object already stored
  under \<open>name\<close>, or a new empty one; the guard on \<open>queryMode\<close> reads \<open>data.queryMode\<close>
  before the assignment \<open>data.queryMode = config.queryMode || 'any'\<close>. A \<open>throw\<close> ends
  the loading of the module, so the error carries no registry. The parameter \<open>group\<close>
  is written \<open>groupName\<close>.
\<close>

definition saveFilter ::
  "string \<Rightarrow> string option \<Rightarrow> jsobject \<Rightarrow> string option \<Rightarrow> registry \<Rightarrow> js_error + registry" where
  "saveFilter name groupName config parent reg =
     (let groups =
            (case groupName of
               None \<Rightarrow> filterGroups reg
             | Some g \<Rightarrow>
                 if g = [] then filterGroups reg
                 else (case filterGroups reg g of
                         Some members \<Rightarrow> (filterGroups reg)(g \<mapsto> set_add members name)
                       | None \<Rightarrow> (filterGroups reg)(g \<mapsto> [name])));
          data0 = (case map_of (filterData reg) name of Some d \<Rightarrow> d | None \<Rightarrow> Map.empty);
          data1 = data0(
            ''multiple'' \<mapsto>
               (if js_get config ''multiple'' = JUndefined then JBool True
                else js_get config ''multiple''),
            ''exclusive'' \<mapsto>
               (if js_get config ''exclusive'' = JUndefined then JBool True
                else js_get config ''exclusive''),
            ''scale'' \<mapsto> js_or (js_get config ''scale'') (JStr ''linear''))
      in if truthy (js_get data1 ''queryMode'') \<and> \<not> truthy (js_get data1 ''multiple'')
         then Inl (Error ''Only filters that accept multiple values may have a query mode.'')
         else
           (let data2 = data1(
                  ''queryMode'' \<mapsto> js_or (js_get config ''queryMode'') (JStr ''any''),
                  ''global'' \<mapsto> js_get config ''global'')
            in if truthy (js_get config ''default'') \<and> \<not> truthy (js_get data2 ''global'')
               then Inl (Error
                 ''Only filters that do not correspond to a metainfo value may have default values set.'')
               else
                 Inr (reg\<lparr>filterGroups := groups,
                          filterData :=
                            AList.update name (data2(''default'' \<mapsto> js_get config ''default''))
                              (filterData reg)\<rparr>)))"

text \<open>
  \<open>registerFilter(name, group, config, subQuantities)\<close>. A sub-quantity is given by
  its \<open>name\<close> and its configuration; the loop stops at the first error.
\<close>

fun saveSubFilters ::
  "string \<Rightarrow> string option \<Rightarrow> (string \<times> jsobject) list \<Rightarrow> registry \<Rightarrow> js_error + registry" where
  "saveSubFilters name groupName [] reg = Inr reg"
| "saveSubFilters name groupName ((subName, subConfig) # subQuantities) reg =
     (case saveFilter (name @ ''.'' @ subName) groupName subConfig (Some name) reg of
        Inl e \<Rightarrow> Inl e
      | Inr reg' \<Rightarrow> saveSubFilters name groupName subQuantities reg')"

definition registerFilter ::
  "string \<Rightarrow> string option \<Rightarrow> jsobject \<Rightarrow> (string \<times> jsobject) list \<Rightarrow> registry
     \<Rightarrow> js_error + registry" where
  "registerFilter name groupName config subQuantities reg =
     (case saveFilter name groupName config None reg of
        Inl e \<Rightarrow> Inl e
      | Inr reg' \<Rightarrow> saveSubFilters name groupName subQuantities reg')"

text \<open>
  Four of the presets of the module. \<open>termQuantity\<close> is \<open>{aggs: {terms: {size: 5}}}\<close>
  in the source; \<open>aggs\<close> is among the fields left out.
\<close>

definition termQuantity :: jsobject where
  "termQuantity = Map.empty"

definition nestedQuantity :: jsobject where
  "nestedQuantity = Map.empty"

definition noQueryQuantity :: jsobject where
  "noQueryQuantity = [''multiple'' \<mapsto> JBool False, ''global'' \<mapsto> JBool True]"

definition numberHistogramQuantity :: jsobject where
  "numberHistogramQuantity = [''multiple'' \<mapsto> JBool False, ''exclusive'' \<mapsto> JBool False]"

subsection \<open>Abbreviations\<close>

text \<open>
  The containers \<open>filterAbbreviations\<close> and \<open>filterFullnames\<close> and the local
  \<open>abbreviations\<close> are used as maps from strings. Names that meet a property that an
  array or object has of its own or inherits (\<open>length\<close>, \<open>constructor\<close>, ...) are
  outside the model.

  \<open>s.split('.')\<close> and \<open>.pop()\<close> of the resulting array, which is never empty.
\<close>

fun split_acc :: "char \<Rightarrow> string \<Rightarrow> string \<Rightarrow> string list" where
  "split_acc sep acc [] = [rev acc]"
| "split_acc sep acc (c # cs) =
     (if c = sep then rev acc # split_acc sep [] cs else split_acc sep (c # acc) cs)"

definition split :: "string \<Rightarrow> char \<Rightarrow> string list" where
  "split s sep = split_acc sep [] s"

definition pop :: "string list \<Rightarrow> string" where
  "pop segments = last segments"

text \<open>
  \<open>fullname.split('.').pop()\<close>, the last dot-segment of a name, and the array
  \<open>nameAbbreviationPairs\<close> over \<open>Object.keys(filterData)\<close>.
\<close>

definition shortForm :: "string \<Rightarrow> string" where
  "shortForm fullname = pop (split fullname CHR ''.'')"

definition nameAbbreviationPairs :: "string list \<Rightarrow> (string \<times> string) list" where
  "nameAbbreviationPairs keys = map (\<lambda>fullname. (fullname, shortForm fullname)) keys"

text \<open>
  The first loop counts every abbreviation in the local object \<open>abbreviations\<close> and maps
  every full name to itself in both directions; the second installs the abbreviations that
  were counted once.
\<close>

fun countLoop ::
  "(string \<times> string) list \<Rightarrow> (string \<rightharpoonup> nat) \<times> registry \<Rightarrow> (string \<rightharpoonup> nat) \<times> registry" where
  "countLoop [] st = st"
| "countLoop ((fullname, abbreviation) # pairs) (abbreviations, reg) =
     countLoop pairs
       ((case abbreviations abbreviation of
           None \<Rightarrow> abbreviations(abbreviation \<mapsto> 1)
         | Some old \<Rightarrow> abbreviations(abbreviation \<mapsto> old + 1)),
        reg\<lparr>filterAbbreviations := (filterAbbreviations reg)(fullname \<mapsto> fullname),
            filterFullnames := (filterFullnames reg)(fullname \<mapsto> fullname)\<rparr>)"

fun assignLoop :: "(string \<rightharpoonup> nat) \<Rightarrow> (string \<times> string) list \<Rightarrow> registry \<Rightarrow> registry" where
  "assignLoop abbreviations [] reg = reg"
| "assignLoop abbreviations ((fullname, abbreviation) # pairs) reg =
     assignLoop abbreviations pairs
       (if abbreviations abbreviation = Some 1
        then reg\<lparr>filterAbbreviations := (filterAbbreviations reg)(fullname \<mapsto> abbreviation),
                 filterFullnames := (filterFullnames reg)(abbreviation \<mapsto> fullname)\<rparr>
        else reg)"

definition buildAbbreviations :: "registry \<Rightarrow> registry" where
  "buildAbbreviations reg =
     (let pairs = nameAbbreviationPairs (map fst (filterData reg))
      in case countLoop pairs (Map.empty, reg) of
           (abbreviations, reg') \<Rightarrow> assignLoop abbreviations pairs reg')"

text \<open>
  The two look-ups of the specification: \<open>abbreviate\<close> reads \<open>filterAbbreviations\<close>,
  \<open>fullname\<close> reads \<open>filterFullnames\<close>; a name that is no key gives \<open>undefined\<close>.
\<close>

definition abbreviate :: "registry \<Rightarrow> string \<Rightarrow> string option" where
  "abbreviate reg name = filterAbbreviations reg name"

definition fullname :: "registry \<Rightarrow> string \<Rightarrow> string option" where
  "fullname reg name = filterFullnames reg name"

text \<open>How many registered names have a given short form.\<close>

definition shortFormCount :: "registry \<Rightarrow> string \<Rightarrow> nat" where
  "shortFormCount reg abbreviation =
     length (filter (\<lambda>name. shortForm name = abbreviation) (map fst (filterData reg)))"

text \<open>
  The registry after \<open>registerFilter('results.material.n_elements', idElements,
  numberHistogramQuantity)\<close> as the first registration (the \<open>label\<close> of the source's
  call is among the fields left out).
\<close>

definition nElementsRegistry :: registry where
  "nElementsRegistry =
     \<lparr>filterGroups = [''elements'' \<mapsto> [''results.material.n_elements'']],
      filterAbbreviations = Map.empty, filterFullnames = Map.empty,
      filterData = [(''results.material.n_elements'',
         [''multiple'' \<mapsto> JBool False, ''exclusive'' \<mapsto> JBool False,
          ''scale'' \<mapsto> JStr ''linear'', ''queryMode'' \<mapsto> JStr ''any'',
          ''global'' \<mapsto> JUndefined, ''default'' \<mapsto> JUndefined])]\<rparr>"

text \<open>
  The registry after
  \<open>registerFilter('results.properties.mechanical.bulk_modulus', idMechanical, nestedQuantity,
  [{name: 'type', ...termQuantity}])\<close> and the same for \<open>shear_modulus\<close>, as the first
  registrations (the sub-quantity \<open>value\<close> of the source's calls is left out). The two
  sub-quantities share the short form \<open>type\<close>.
\<close>

definition defaultData :: jsobject where
  "defaultData =
     [''multiple'' \<mapsto> JBool True, ''exclusive'' \<mapsto> JBool True,
      ''scale'' \<mapsto> JStr ''linear'', ''queryMode'' \<mapsto> JStr ''any'',
      ''global'' \<mapsto> JUndefined, ''default'' \<mapsto> JUndefined]"

definition modulusRegistry :: registry where
  "modulusRegistry =
     \<lparr>filterGroups = [''mechanical'' \<mapsto>
        [''results.properties.mechanical.bulk_modulus'',
         ''results.properties.mechanical.bulk_modulus.type'',
         ''results.properties.mechanical.shear_modulus'',
         ''results.properties.mechanical.shear_modulus.type'']],
      filterAbbreviations = Map.empty, filterFullnames = Map.empty,
      filterData =
        [(''results.properties.mechanical.bulk_modulus'', defaultData),
         (''results.properties.mechanical.bulk_modulus.type'', defaultData),
         (''results.properties.mechanical.shear_modulus'', defaultData),
         (''results.properties.mechanical.shear_modulus.type'', defaultData)]\<rparr>"

section \<open>The search bar\<close>

subsection \<open>Strings, regular expressions and numbers of the language\<close>

text \<open>
  A \<open>char\<close> stands for a UTF-16 code unit below 256. Among these, the white space of
  \<open>\s\<close>, of \<open>trim\<close> and of \<open>parseFloat\<close> is tab, line feed, vertical tab, form feed,
  carriage return, space and no-break space; the line terminators, which \<open>.\<close> does not
  match, are line feed and carriage return.
\<close>

definition isWhiteSpace :: "char \<Rightarrow> bool" where
  "isWhiteSpace c = (of_char c \<in> {9, 10, 11, 12, 13, 32, 160 :: nat})"

definition isLineTerminator :: "char \<Rightarrow> bool" where
  "isLineTerminator c = (of_char c \<in> {10, 13 :: nat})"

definition trimStart :: "string \<Rightarrow> string" where
  "trimStart s = dropWhile isWhiteSpace s"

definition trim :: "string \<Rightarrow> string" where
  "trim s = rev (dropWhile isWhiteSpace (rev (dropWhile isWhiteSpace s)))"

definition startsWith :: "string \<Rightarrow> string \<Rightarrow> bool" where
  "startsWith s searchString = (take (length searchString) s = searchString)"

text \<open>
  The regular expressions of the source, without flags: literal characters, \<open>\s\<close>,
  \<open>\S\<close>, \<open>.\<close>, sequence, alternation, the greedy \<open>*\<close> and \<open>?\<close>, capture groups
  (numbered as in the source; \<open>(?:...)\<close> is plain nesting), \<open>^\<close> and \<open>$\<close>.
\<close>

datatype atom = Lit char | Space | NonSpace | AnyChar

datatype regex =
    Atom atom
  | Empty
  | Seq regex regex
  | Alt regex regex
  | Star regex
  | Opt regex
  | Group nat regex
  | InputStart
  | InputEnd

fun atom_matches :: "atom \<Rightarrow> char \<Rightarrow> bool" where
  "atom_matches (Lit c) x = (x = c)"
| "atom_matches Space x = isWhiteSpace x"
| "atom_matches NonSpace x = (\<not> isWhiteSpace x)"
| "atom_matches AnyChar x = (\<not> isLineTerminator x)"

text \<open>
  The backtracking matcher. A state is the input that is left and the captures so far;
  \<open>run inp r st\<close> lists, in the order in which backtracking tries them, the states
  in which \<open>r\<close> can end when started in \<open>st\<close>. A greedy \<open>*\<close> first tries one more
  iteration and then to stop, a greedy \<open>?\<close> first tries the body; an iteration that
  consumes nothing is rejected, as the language prescribes. The first state of the list for
  the whole expression is the match. \<open>inp\<close> is the whole input: \<open>^\<close> matches where
  nothing is consumed yet.
\<close>

type_synonym captures = "nat \<rightharpoonup> string"

type_synonym mstate = "string \<times> captures"

definition consumes :: "mstate \<Rightarrow> mstate \<Rightarrow> bool" where
  "consumes st st' = (length (fst st') < length (fst st))"

function star :: "(mstate \<Rightarrow> mstate list) \<Rightarrow> mstate \<Rightarrow> mstate list" where
  "star m st = concat (map (star m) (filter (consumes st) (m st))) @ [st]"
  by pat_completeness auto
termination
  by (relation "measure (\<lambda>(m, st). length (fst st))") (auto simp: consumes_def)

declare star.simps [simp del]

primrec run :: "string \<Rightarrow> regex \<Rightarrow> mstate \<Rightarrow> mstate list" where
  "run inp (Atom a) st =
     (case fst st of
        [] \<Rightarrow> []
      | c # cs \<Rightarrow> if atom_matches a c then [(cs, snd st)] else [])"
| "run inp Empty st = [st]"
| "run inp (Seq r1 r2) st = concat (map (run inp r2) (run inp r1 st))"
| "run inp (Alt r1 r2) st = run inp r1 st @ run inp r2 st"
| "run inp (Star r) st = star (run inp r) st"
| "run inp (Opt r) st = filter (consumes st) (run inp r st) @ [st]"
| "run inp (Group n r) st =
     map (\<lambda>st'. (fst st', (snd st')(n \<mapsto> take (length (fst st) - length (fst st')) (fst st))))
       (run inp r st)"
| "run inp InputStart st = (if length (fst st) = length inp then [st] else [])"
| "run inp InputEnd st = (if fst st = [] then [st] else [])"

text \<open>
  \<open>str.match(re)\<close> for an expression without the \<open>g\<close> flag: the first start index
  with a match wins; the result is the captures, or \<open>null\<close>. Group \<open>i\<close> of the result
  is a string, or \<open>undefined\<close> for a group that took no part.
\<close>

definition match :: "string \<Rightarrow> regex \<Rightarrow> captures option" where
  "match str re =
     (case concat (map (\<lambda>i. run str re (drop i str, Map.empty)) [0..<Suc (length str)]) of
        [] \<Rightarrow> None
      | st # _ \<Rightarrow> Some (snd st))"

fun seqs :: "regex list \<Rightarrow> regex" where
  "seqs [] = Empty"
| "seqs (r # rs) = Seq r (seqs rs)"

text \<open>
  The words that an expression without \<open>^\<close> and \<open>$\<close> matches, as sets of strings;
  the matcher is checked against them below. \<open>rests\<close> are the inputs left in a list of
  states.
\<close>

inductive_set stars :: "string set \<Rightarrow> string set" for A :: "string set" where
  nil: "[] \<in> stars A"
| step: "u \<in> A \<Longrightarrow> v \<in> stars A \<Longrightarrow> u @ v \<in> stars A"

primrec lang :: "regex \<Rightarrow> string set" where
  "lang (Atom a) = {[x] | x. atom_matches a x}"
| "lang Empty = {[]}"
| "lang (Seq r1 r2) = {u @ v | u v. u \<in> lang r1 \<and> v \<in> lang r2}"
| "lang (Alt r1 r2) = lang r1 \<union> lang r2"
| "lang (Star r) = stars (lang r)"
| "lang (Opt r) = insert [] (lang r)"
| "lang (Group n r) = lang r"
| "lang InputStart = {[]}"
| "lang InputEnd = {[]}"

primrec anchorFree :: "regex \<Rightarrow> bool" where
  "anchorFree (Atom a) = True"
| "anchorFree Empty = True"
| "anchorFree (Seq r1 r2) = (anchorFree r1 \<and> anchorFree r2)"
| "anchorFree (Alt r1 r2) = (anchorFree r1 \<and> anchorFree r2)"
| "anchorFree (Star r) = anchorFree r"
| "anchorFree (Opt r) = anchorFree r"
| "anchorFree (Group n r) = anchorFree r"
| "anchorFree InputStart = False"
| "anchorFree InputEnd = False"

text \<open>An expression without capture groups leaves the captures as they are.\<close>

primrec groupFree :: "regex \<Rightarrow> bool" where
  "groupFree (Atom a) = True"
| "groupFree Empty = True"
| "groupFree (Seq r1 r2) = (groupFree r1 \<and> groupFree r2)"
| "groupFree (Alt r1 r2) = (groupFree r1 \<and> groupFree r2)"
| "groupFree (Star r) = groupFree r"
| "groupFree (Opt r) = groupFree r"
| "groupFree (Group n r) = False"
| "groupFree InputStart = True"
| "groupFree InputEnd = True"

definition rests :: "mstate list \<Rightarrow> string set" where
  "rests sts = fst ` set sts"

text \<open>
  A string of the language or \<open>undefined\<close>, and \<open>ToString\<close> on it, which is applied
  where such a value is used as a property key or is passed to \<open>parseFloat\<close>.
\<close>

type_synonym jsstring = "string option"

definition toString :: "jsstring \<Rightarrow> string" where
  "toString x = (case x of None \<Rightarrow> ''undefined'' | Some s \<Rightarrow> s)"

text \<open>
  Numbers of the search bar: \<open>NaN\<close>, the infinities, or a finite value. A literal
  whose value is at least \<open>2^1024 - 2^970\<close>, where rounding to the nearest double leaves
  the finite doubles, is \<open>Infinity\<close>. Below that a finite value is the exact decimal
  value of the literal: the rounding to a double and the sign of zero are not modelled.
\<close>

datatype jsnumber = NaN | Finite rat | PlusInfinity | MinusInfinity

definition isNaN :: "jsnumber \<Rightarrow> bool" where
  "isNaN x = (x = NaN)"

definition isDigit :: "char \<Rightarrow> bool" where
  "isDigit c = (48 \<le> (of_char c :: nat) \<and> (of_char c :: nat) \<le> 57)"

definition digitsValue :: "string \<Rightarrow> nat" where
  "digitsValue ds = foldl (\<lambda>v d. 10 * v + (of_char d - 48)) 0 ds"

text \<open>The exponent part \<open>e\<close> or \<open>E\<close>, an optional sign and digits; 0 when there is none.\<close>

definition exponentPart :: "string \<Rightarrow> int" where
  "exponentPart s =
     (case s of
        [] \<Rightarrow> 0
      | e # r \<Rightarrow>
          if e = CHR ''e'' \<or> e = CHR ''E'' then
            (case r of
               [] \<Rightarrow> 0
             | c # r' \<Rightarrow>
                 if c = CHR ''+'' then int (digitsValue (takeWhile isDigit r'))
                 else if c = CHR ''-'' then - int (digitsValue (takeWhile isDigit r'))
                 else int (digitsValue (takeWhile isDigit r)))
          else 0)"

text \<open>
  The longest prefix that is an unsigned decimal literal: \<open>Infinity\<close>, or digits with
  an optional fraction and exponent, or a fraction that starts with the dot.
\<close>

definition unsignedLiteral :: "string \<Rightarrow> jsnumber" where
  "unsignedLiteral s =
     (if startsWith s ''Infinity'' then PlusInfinity
      else
        (let intDigits = takeWhile isDigit s;
             afterInt = dropWhile isDigit s;
             hasDot = (afterInt \<noteq> [] \<and> hd afterInt = CHR ''.'');
             fracDigits = (if hasDot then takeWhile isDigit (tl afterInt) else []);
             afterFrac = (if hasDot then dropWhile isDigit (tl afterInt) else afterInt)
         in if intDigits = [] \<and> fracDigits = [] then NaN
            else
              (let mantissa =
                     of_nat (digitsValue intDigits)
                       + of_nat (digitsValue fracDigits) / 10 ^ length fracDigits;
                   ex = exponentPart afterFrac;
                   v = (if 0 \<le> ex then mantissa * 10 ^ nat ex
                        else mantissa / 10 ^ nat (- ex))
               in if 2 ^ 1024 - 2 ^ 970 \<le> v then PlusInfinity else Finite v)))"

definition negate :: "jsnumber \<Rightarrow> jsnumber" where
  "negate x =
     (case x of
        NaN \<Rightarrow> NaN
      | Finite v \<Rightarrow> Finite (- v)
      | PlusInfinity \<Rightarrow> MinusInfinity
      | MinusInfinity \<Rightarrow> PlusInfinity)"

text \<open>\<open>Number.parseFloat(string)\<close>.\<close>

definition parseFloat :: "string \<Rightarrow> jsnumber" where
  "parseFloat string =
     (case trimStart string of
        [] \<Rightarrow> NaN
      | c # r \<Rightarrow>
          if c = CHR ''+'' then unsignedLiteral r
          else if c = CHR ''-'' then negate (unsignedLiteral r)
          else unsignedLiteral (c # r))"

subsection \<open>Abbreviations of the search bar\<close>

text \<open>
  The table \<open>searchQuantities\<close> is generated from the metainfo and is not part of the
  sources at hand; it is a parameter, given by its keys in the order of \<open>Object.keys\<close>
  and, for each key, the \<open>type.type_data\<close> of the entry: a string for a primitive type
  (\<open>'int32'\<close>, \<open>'float64'\<close>, \<open>'str'\<close>), an array of the options for an enumeration.
\<close>

datatype type_data = TypeName string | Options "string list"

type_synonym searchQuantities = "(string \<times> type_data) list"

definition quantityNames :: "searchQuantities \<Rightarrow> string list" where
  "quantityNames sq = filter (\<lambda>q. startsWith q ''results'') (map fst sq)"

definition abbreviationList :: "searchQuantities \<Rightarrow> string list" where
  "abbreviationList sq = map (\<lambda>name. pop (split name CHR ''.'')) (quantityNames sq)"

text \<open>The first loop, on the pair of \<open>abbreviationSet\<close> and \<open>nonUniques\<close>.\<close>

fun nonUniquesLoop :: "string list \<Rightarrow> string list \<times> string list \<Rightarrow> string list \<times> string list" where
  "nonUniquesLoop [] st = st"
| "nonUniquesLoop (abbr # rest) (abbreviationSet, nonUniques) =
     nonUniquesLoop rest
       (set_add abbreviationSet abbr,
        if abbr \<in> set abbreviationSet then set_add nonUniques abbr else nonUniques)"

definition nonUniques :: "searchQuantities \<Rightarrow> string list" where
  "nonUniques sq = snd (nonUniquesLoop (abbreviationList sq) ([], []))"

text \<open>
  The second loop, over the indices of \<open>quantityNames\<close>, on the pair of the maps
  \<open>quantityAbbreviations\<close> and \<open>quantityFullnames\<close>.
\<close>

fun quantityLoop ::
  "string list \<Rightarrow> (string \<times> string) list \<Rightarrow> (string \<rightharpoonup> string) \<times> (string \<rightharpoonup> string)
     \<Rightarrow> (string \<rightharpoonup> string) \<times> (string \<rightharpoonup> string)" where
  "quantityLoop nonUniq [] st = st"
| "quantityLoop nonUniq ((name, abbr) # rest) (abbreviations, fullnames) =
     quantityLoop nonUniq rest
       (if abbr \<notin> set nonUniq
        then (abbreviations(name \<mapsto> abbr), fullnames(abbr \<mapsto> name))
        else (abbreviations, fullnames))"

definition quantityAbbreviations :: "searchQuantities \<Rightarrow> string \<rightharpoonup> string" where
  "quantityAbbreviations sq =
     fst (quantityLoop (nonUniques sq) (zip (quantityNames sq) (abbreviationList sq))
            (Map.empty, Map.empty))"

definition quantityFullnames :: "searchQuantities \<Rightarrow> string \<rightharpoonup> string" where
  "quantityFullnames sq =
     snd (quantityLoop (nonUniques sq) (zip (quantityNames sq) (abbreviationList sq))
            (Map.empty, Map.empty))"

text \<open>\<open>map.get(key)\<close> and \<open>set.has(value)\<close> for a string or \<open>undefined\<close>.\<close>

definition Map_get :: "(string \<rightharpoonup> string) \<Rightarrow> jsstring \<Rightarrow> jsstring" where
  "Map_get m key = (case key of None \<Rightarrow> None | Some k \<Rightarrow> m k)"

definition Set_has :: "string list \<Rightarrow> jsstring \<Rightarrow> bool" where
  "Set_has xs x = (case x of None \<Rightarrow> False | Some v \<Rightarrow> v \<in> set xs)"

subsection \<open>Submitting the input\<close>

definition opMap :: "string \<rightharpoonup> string" where
  "opMap = [''<='' \<mapsto> ''lte'', ''>='' \<mapsto> ''gte'', ''>'' \<mapsto> ''gt'', ''<'' \<mapsto> ''lt'']"

definition opMapReverse :: "string \<rightharpoonup> string" where
  "opMapReverse = [''<='' \<mapsto> ''gte'', ''>='' \<mapsto> ''lte'', ''>'' \<mapsto> ''lt'', ''<'' \<mapsto> ''gt'']"

text \<open>
  \<open>reString\<close> is \<open>\S(?:.*\S)?\<close>, the operator of the two range expressions is
  \<open>(<|>=?)\<close>, and the three expressions are
  \<^verbatim>\<open>^\s*(reString)\s*=\s*(reString)\s*$\<close>,
  \<^verbatim>\<open>^\s*(reString)\s*(<|>=?)\s*(reString)\s*$\<close> and
  \<^verbatim>\<open>^\s*(reString)\s*(<|>=?)\s*(reString)\s*(<|>=?)\s*(reString)\s*$\<close>.
\<close>

definition reString :: regex where
  "reString = Seq (Atom NonSpace) (Opt (Seq (Star (Atom AnyChar)) (Atom NonSpace)))"

definition reOp :: regex where
  "reOp = Alt (Atom (Lit CHR ''<'')) (Seq (Atom (Lit CHR ''>'')) (Opt (Atom (Lit CHR ''=''))))"

definition spaces :: regex where
  "spaces = Star (Atom Space)"

definition equalsRe :: regex where
  "equalsRe =
     seqs [InputStart, spaces, Group 1 reString, spaces, Atom (Lit CHR ''=''), spaces,
           Group 2 reString, spaces, InputEnd]"

definition ltegteRe :: regex where
  "ltegteRe =
     seqs [InputStart, spaces, Group 1 reString, spaces, Group 2 reOp, spaces,
           Group 3 reString, spaces, InputEnd]"

definition ltegteSandwichRe :: regex where
  "ltegteSandwichRe =
     seqs [InputStart, spaces, Group 1 reString, spaces, Group 2 reOp, spaces,
           Group 3 reString, spaces, Group 4 reOp, spaces, Group 5 reString, spaces, InputEnd]"

text \<open>
  The value of a query: the text of an equality query, or the object of a range query,
  from property names to numbers.
\<close>

datatype queryValue = Text jsstring | Range "string \<rightharpoonup> jsnumber"

text \<open>
  What \<open>handleSubmit\<close> does: nothing (an empty input), \<open>setError(message)\<close>,
  \<open>setFilter([quantityFullname, queryValue])\<close> followed by the clearing of the input, or
  a \<open>TypeError\<close> that the language raises (\<open>startsWith\<close> on a \<open>type_data\<close> that is no
  string, or a property of \<open>undefined\<close>).
\<close>

datatype outcome = Nothing | SetError string | SetFilter jsstring queryValue | TypeError

text \<open>
  The tail that the two range branches share: the check of the type of the quantity, then
  the query value.
\<close>

definition rangeQuery ::
  "searchQuantities \<Rightarrow> jsstring \<Rightarrow> (string \<rightharpoonup> jsnumber) \<Rightarrow> outcome" where
  "rangeQuery sq quantityFullname queryValue =
     (case map_of sq (toString quantityFullname) of
        None \<Rightarrow> TypeError
      | Some (Options opts) \<Rightarrow> TypeError
      | Some (TypeName type_data) \<Rightarrow>
          if \<not> startsWith type_data ''int'' \<and> \<not> startsWith type_data ''float''
          then SetError ''Cannot perform range query for a non-numeric quantity.''
          else SetFilter quantityFullname (Range queryValue))"

definition handleSubmit :: "searchQuantities \<Rightarrow> string list \<Rightarrow> string \<Rightarrow> outcome" where
  "handleSubmit sq quantities inputValue =
     (if length (trim inputValue) = 0 then Nothing
      else
        (case match inputValue equalsRe of
           Some equals \<Rightarrow>
             (let quantityName = equals 1;
                  queryValue = equals 2;
                  quantityFullname = Map_get (quantityFullnames sq) quantityName
              in if \<not> Set_has quantities quantityFullname
                 then SetError ''Unknown quantity name''
                 else SetFilter quantityFullname (Text queryValue))
         | None \<Rightarrow>
        (case match inputValue ltegteRe of
           Some ltegte \<Rightarrow>
             (let a = ltegte 1;
                  op = ltegte 2;
                  b = ltegte 3;
                  aFullname = Map_get (quantityFullnames sq) a;
                  bFullname = Map_get (quantityFullnames sq) b;
                  isAQuantity = Set_has quantities aFullname;
                  isBQuantity = Set_has quantities bFullname
              in if \<not> isAQuantity \<and> \<not> isBQuantity
                 then SetError ''Unknown quantity name''
                 else
                   (let quantityFullname = (if isAQuantity then aFullname else bFullname);
                        quantityValue = parseFloat (toString (if isAQuantity then b else a))
                    in if isNaN quantityValue then SetError ''Invalid number''
                       else rangeQuery sq quantityFullname
                              [toString (opMap (toString op)) \<mapsto> quantityValue]))
         | None \<Rightarrow>
        (case match inputValue ltegteSandwichRe of
           Some ltegteSandwich \<Rightarrow>
             (let a = ltegteSandwich 1;
                  op1 = ltegteSandwich 2;
                  b = ltegteSandwich 3;
                  op2 = ltegteSandwich 4;
                  c = ltegteSandwich 5;
                  quantityFullname = Map_get (quantityFullnames sq) b;
                  isBQuantity = Set_has quantities quantityFullname
              in if \<not> isBQuantity then SetError ''Unknown quantity name''
                 else
                   (let aValue = parseFloat (toString a);
                        cValue = parseFloat (toString c)
                    in if isNaN aValue \<or> isNaN cValue then SetError ''Invalid number''
                       else rangeQuery sq quantityFullname
                              [toString (opMapReverse (toString op1)) \<mapsto> aValue,
                               toString (opMap (toString op2)) \<mapsto> cValue]))
         | None \<Rightarrow> SetError ''Invalid query''))))"

text \<open>
  The single-bound inputs \<open>x op y\<close>: blanks are runs of white space, and an operand is
  a string that is not empty, neither starts nor ends with white space and holds none of the
  characters \<open><\<close>, \<open>>\<close> and \<open>=\<close> of the operators.
\<close>

definition isBlank :: "string \<Rightarrow> bool" where
  "isBlank w = (\<forall>c \<in> set w. isWhiteSpace c)"

definition isOperand :: "string \<Rightarrow> bool" where
  "isOperand x =
     (x \<noteq> [] \<and> \<not> isWhiteSpace (hd x) \<and> \<not> isWhiteSpace (last x)
      \<and> (\<forall>c \<in> set x. c \<noteq> CHR ''<'' \<and> c \<noteq> CHR ''>'' \<and> c \<noteq> CHR ''=''))"

text \<open>
  A metainfo table with the integer quantity \<open>results.material.n_elements\<close> and the
  string quantity \<open>results.material.material_name\<close>, and the \<open>quantities\<close> given to the
  search bar.
\<close>

definition sampleSearchQuantities :: searchQuantities where
  "sampleSearchQuantities =
     [(''results.material.n_elements'', TypeName ''int32''),
      (''results.material.material_name'', TypeName ''str'')]"

definition sampleQuantities :: "string list" where
  "sampleQuantities = [''results.material.n_elements'', ''results.material.material_name'']"

section \<open>The search state store\<close>

text \<open>
  Modelled from the spec: the search state store (the search context that \<open>Search.js\<close>
  imports and reads with \<open>useContext\<close>), whose code is not among the sources. The
  specification gives it one state object per instance, holding the current request
  parameters (query and pagination) and the response that is shown. A change of the
  parameters issues a fetch with the new parameters; fetches cannot be cancelled; when a
  fetch completes, the store applies "only the response whose request parameters match
  the current state at completion time", and to guarantee that, the fetches are tagged
  with a "monotonically increasing request id". So the store counts the fetches it has
  issued, a fetch carries its number, and a response is applied only when the number of
  its fetch is that of the latest fetch.
\<close>

record ('p, 'r) store =
  currentParameters :: 'p
  shownResponse :: "'r option"
  latestRequest :: nat

datatype ('p, 'r) event = FetchIssued 'p | ResponseArrived nat 'r

fun storeStep :: "('p, 'r) store \<Rightarrow> ('p, 'r) event \<Rightarrow> ('p, 'r) store" where
  "storeStep s (FetchIssued p) =
     s\<lparr>currentParameters := p, latestRequest := Suc (latestRequest s)\<rparr>"
| "storeStep s (ResponseArrived requestId r) =
     (if requestId = latestRequest s then s\<lparr>shownResponse := Some r\<rparr> else s)"

definition storeRun :: "('p, 'r) store \<Rightarrow> ('p, 'r) event list \<Rightarrow> ('p, 'r) store" where
  "storeRun s events = foldl storeStep s events"

section \<open>Properties of the Datatable functions\<close>

lemma combinePagination_get:
  "js_get (combinePagination request response) ''page_size'' =
      js_or (js_get request ''page_size'') (js_get_opt response ''page_size'')"
  "js_get (combinePagination request response) ''order_by'' =
      js_or (js_get request ''order_by'') (js_get_opt response ''order_by'')"
  "js_get (combinePagination request response) ''order'' =
      js_or (js_get request ''order'') (js_get_opt response ''order'')"
  "js_get (combinePagination request response) ''page'' =
      js_or (js_get request ''page'') (js_get_opt response ''page'')"
  "js_get (combinePagination request response) ''total'' = js_get_opt response ''total''"
  by (simp_all add: combinePagination_def js_get_def Let_def)

text \<open>
  Claim C3, as the code has it. Each of \<open>page_size\<close>, \<open>order_by\<close>, \<open>order\<close> and
  \<open>page\<close> of the combined object is the request's value when that value is truthy, and
  the response's value otherwise (\<open>undefined\<close> when there is no response); \<open>total\<close> is
  always the response's. For \<open>combinePagination({page_size: 10}, {page_size: 20, total: 5})\<close>
  the page size is 10 and the total is 5.
\<close>

theorem combinePagination_prefers_truthy_request:
  "(\<forall>k \<in> {''page_size'', ''order_by'', ''order'', ''page''}.
      js_get (combinePagination request response) k =
        (if truthy (js_get request k) then js_get request k else js_get_opt response k))
   \<and> js_get (combinePagination request response) ''total'' = js_get_opt response ''total''
   \<and> js_get (combinePagination [''page_size'' \<mapsto> JNum 10]
                  (Some [''page_size'' \<mapsto> JNum 20, ''total'' \<mapsto> JNum 5])) ''page_size'' = JNum 10
   \<and> js_get (combinePagination [''page_size'' \<mapsto> JNum 10]
                  (Some [''page_size'' \<mapsto> JNum 20, ''total'' \<mapsto> JNum 5])) ''total'' = JNum 5"
  by (simp add: combinePagination_get js_or_def) (simp_all add: js_get_opt_def js_get_def)

theorem combinePagination_prefers_truthy_request_witness:
  "js_get (combinePagination [''page'' \<mapsto> JNum 3, ''order'' \<mapsto> JStr ''asc'']
        (Some [''page'' \<mapsto> JNum 1, ''order'' \<mapsto> JStr ''desc'',
               ''order_by'' \<mapsto> JStr ''upload_create_time'', ''total'' \<mapsto> JNum 42])) ''page'' = JNum 3
   \<and> js_get (combinePagination [''page'' \<mapsto> JNum 3, ''order'' \<mapsto> JStr ''asc'']
        (Some [''page'' \<mapsto> JNum 1, ''order'' \<mapsto> JStr ''desc'',
               ''order_by'' \<mapsto> JStr ''upload_create_time'', ''total'' \<mapsto> JNum 42])) ''order_by''
       = JStr ''upload_create_time''"
  using combinePagination_prefers_truthy_request
     [of "[''page'' \<mapsto> JNum 3, ''order'' \<mapsto> JStr ''asc'']"
         "Some [''page'' \<mapsto> JNum 1, ''order'' \<mapsto> JStr ''desc'',
                ''order_by'' \<mapsto> JStr ''upload_create_time'', ''total'' \<mapsto> JNum 42]"]
  by (simp add: js_get_def js_get_opt_def)

text \<open>
  Claim C3 as stated fails where the request provides a falsy value: a request with
  \<open>page_size: 0\<close> gets the response's page size.
\<close>

theorem combinePagination_request_zero_counterexample:
  "[''page_size'' \<mapsto> JNum 0] ''page_size'' = Some (JNum 0)
   \<and> js_get (combinePagination [''page_size'' \<mapsto> JNum 0]
         (Some [''page_size'' \<mapsto> JNum 20, ''total'' \<mapsto> JNum 5])) ''page_size'' = JNum 20"
  by (simp add: combinePagination_get js_or_def) (simp_all add: js_get_opt_def js_get_def)

lemma combinePagination_cursor_iff_no_page:
  "(combinePagination request response ''page_after_value'' \<noteq> None
       \<longleftrightarrow> \<not> truthy (js_get (combinePagination request response) ''page''))
   \<and> (combinePagination request response ''next_page_after_value'' \<noteq> None
       \<longleftrightarrow> \<not> truthy (js_get (combinePagination request response) ''page''))"
  by (simp add: combinePagination_def js_get_def Let_def)

lemma pageOrAbsent_truthy: "pageOrAbsent v \<Longrightarrow> truthy v \<longleftrightarrow> v \<noteq> JUndefined"
  by (cases v) (simp_all add: pageOrAbsent_def)

lemma pageOrAbsent_js_or: "pageOrAbsent a \<Longrightarrow> pageOrAbsent b \<Longrightarrow> pageOrAbsent (js_or a b)"
  by (simp add: js_or_def)

text \<open>
  Claim C8. For a request and a response whose \<open>page\<close> is a page number from 1 or is
  absent, so is the \<open>page\<close> of the combined object, and the combined object never has a
  page together with a cursor key: \<open>page_after_value\<close> and \<open>next_page_after_value\<close> are
  set exactly when the page is absent.
\<close>

theorem combinePagination_mode_exclusive:
  assumes "pageOrAbsent (js_get request ''page'')"
    and "pageOrAbsent (js_get_opt response ''page'')"
  shows "pageOrAbsent (js_get (combinePagination request response) ''page'')
     \<and> \<not> (js_get (combinePagination request response) ''page'' \<noteq> JUndefined
            \<and> (combinePagination request response ''page_after_value'' \<noteq> None
                 \<or> combinePagination request response ''next_page_after_value'' \<noteq> None))
     \<and> (combinePagination request response ''page_after_value'' \<noteq> None
            \<longleftrightarrow> js_get (combinePagination request response) ''page'' = JUndefined)
     \<and> (combinePagination request response ''next_page_after_value'' \<noteq> None
            \<longleftrightarrow> js_get (combinePagination request response) ''page'' = JUndefined)"
proof -
  have p: "pageOrAbsent (js_get (combinePagination request response) ''page'')"
    using assms by (simp add: combinePagination_get pageOrAbsent_js_or)
  show ?thesis
    using p pageOrAbsent_truthy [OF p] combinePagination_cursor_iff_no_page [of request response]
    by auto
qed

theorem combinePagination_mode_exclusive_witness:
  "js_get (combinePagination [''page'' \<mapsto> JNum 2, ''page_after_value'' \<mapsto> JStr ''abc'']
        (Some [''page'' \<mapsto> JNum 1, ''next_page_after_value'' \<mapsto> JStr ''def''])) ''page'' = JNum 2
   \<and> combinePagination [''page'' \<mapsto> JNum 2, ''page_after_value'' \<mapsto> JStr ''abc'']
        (Some [''page'' \<mapsto> JNum 1, ''next_page_after_value'' \<mapsto> JStr ''def'']) ''page_after_value''
       = None
   \<and> combinePagination [''page'' \<mapsto> JNum 2, ''page_after_value'' \<mapsto> JStr ''abc'']
        (Some [''page'' \<mapsto> JNum 1, ''next_page_after_value'' \<mapsto> JStr ''def''])
        ''next_page_after_value'' = None
   \<and> js_get (combinePagination [''page_size'' \<mapsto> JNum 10, ''page_after_value'' \<mapsto> JStr ''abc'']
        (Some [''next_page_after_value'' \<mapsto> JStr ''def''])) ''page'' = JUndefined
   \<and> combinePagination [''page_size'' \<mapsto> JNum 10, ''page_after_value'' \<mapsto> JStr ''abc'']
        (Some [''next_page_after_value'' \<mapsto> JStr ''def'']) ''page_after_value'' \<noteq> None"
proof -
  have a: "pageOrAbsent (js_get [''page'' \<mapsto> JNum 2, ''page_after_value'' \<mapsto> JStr ''abc''] ''page'')"
      "pageOrAbsent (js_get_opt (Some [''page'' \<mapsto> JNum 1, ''next_page_after_value'' \<mapsto> JStr ''def''])
         ''page'')"
    and b: "pageOrAbsent (js_get [''page_size'' \<mapsto> JNum 10, ''page_after_value'' \<mapsto> JStr ''abc''] ''page'')"
      "pageOrAbsent (js_get_opt (Some [''next_page_after_value'' \<mapsto> JStr ''def'']) ''page'')"
    by (simp_all add: pageOrAbsent_def js_get_def js_get_opt_def)
  have p2: "js_get (combinePagination [''page'' \<mapsto> JNum 2, ''page_after_value'' \<mapsto> JStr ''abc'']
        (Some [''page'' \<mapsto> JNum 1, ''next_page_after_value'' \<mapsto> JStr ''def''])) ''page'' = JNum 2"
    and pu: "js_get (combinePagination [''page_size'' \<mapsto> JNum 10, ''page_after_value'' \<mapsto> JStr ''abc'']
        (Some [''next_page_after_value'' \<mapsto> JStr ''def''])) ''page'' = JUndefined"
    by (simp_all add: combinePagination_get js_or_def) (simp_all add: js_get_opt_def js_get_def)
  show ?thesis
    using combinePagination_mode_exclusive [OF a] combinePagination_mode_exclusive [OF b] p2 pu
    by simp
qed

text \<open>
  Claim C7. Toggling a row while the selection is \<open>'all'\<close> gives the array holding that
  row alone. The updater has no access to the rows of the table, so no complement can be
  computed.
\<close>

theorem handleSelect_all_singleton:
  "handleSelect entry_id row All = Rows [row]"
  by (simp add: handleSelect_def)

section \<open>Properties of the filter registry\<close>

lemma registerFilter_nElements:
  "registerFilter ''results.material.n_elements'' (Some ''elements'') numberHistogramQuantity []
      emptyRegistry = Inr nElementsRegistry"
  by (simp add: registerFilter_def saveFilter_def emptyRegistry_def nElementsRegistry_def
        numberHistogramQuantity_def js_get_def js_or_def Let_def)

lemma shortForm_nElements: "shortForm ''results.material.n_elements'' = ''n_elements''"
  by (simp add: shortForm_def pop_def split_def)

text \<open>
  Claim C10. A call of \<open>saveFilter\<close> that returns stores, under the name, a data object
  whose \<open>multiple\<close> is \<open>true\<close> when the configuration omits it (and the configured
  value otherwise), whose \<open>exclusive\<close> is \<open>true\<close> when the configuration omits it (and
  the configured value otherwise), and whose \<open>queryMode\<close> is always set: it is
  \<open>'any'\<close> when the configuration omits it, whatever \<open>multiple\<close> is.
\<close>

theorem saveFilter_defaults:
  assumes "saveFilter name groupName config parent reg = Inr reg'"
  shows "\<exists>data. map_of (filterData reg') name = Some data
     \<and> (js_get config ''multiple'' = JUndefined \<longrightarrow> js_get data ''multiple'' = JBool True)
     \<and> (js_get config ''multiple'' \<noteq> JUndefined \<longrightarrow>
           js_get data ''multiple'' = js_get config ''multiple'')
     \<and> (js_get config ''exclusive'' = JUndefined \<longrightarrow> js_get data ''exclusive'' = JBool True)
     \<and> (js_get config ''exclusive'' \<noteq> JUndefined \<longrightarrow>
           js_get data ''exclusive'' = js_get config ''exclusive'')
     \<and> truthy (js_get data ''queryMode'')
     \<and> (js_get config ''queryMode'' = JUndefined \<longrightarrow> js_get data ''queryMode'' = JStr ''any'')"
  using assms
  by (auto simp: saveFilter_def Let_def AList.update_conv' js_get_def js_or_def
           split: if_splits)

text \<open>
  The preset \<open>numberHistogramQuantity\<close> has \<open>multiple: false\<close> and no \<open>queryMode\<close>:
  the stored filter has \<open>multiple = false\<close> and \<open>queryMode = 'any'\<close>.
\<close>

theorem saveFilter_defaults_witness:
  "map_option (\<lambda>data. (js_get data ''multiple'', js_get data ''exclusive'', js_get data ''queryMode''))
     (map_of (filterData nElementsRegistry) ''results.material.n_elements'')
     = Some (JBool False, JBool False, JStr ''any'')
   \<and> saveFilter ''results.material.n_elements'' (Some ''elements'') numberHistogramQuantity None
        emptyRegistry = Inr nElementsRegistry"
proof -
  have s: "saveFilter ''results.material.n_elements'' (Some ''elements'') numberHistogramQuantity None
        emptyRegistry = Inr nElementsRegistry"
    using registerFilter_nElements by (simp add: registerFilter_def split: sum.splits)
  from saveFilter_defaults [OF s] s show ?thesis
    by (auto simp: numberHistogramQuantity_def js_get_def)
qed

text \<open>
  The guard on \<open>queryMode\<close> cannot fire for a name that is not registered yet, whatever
  the configuration; it fires when a filter with \<open>multiple: false\<close> is registered a
  second time, because every stored data object has a \<open>queryMode\<close>.
\<close>

lemma saveFilter_first_registration_accepts_queryMode:
  assumes "map_of (filterData reg) name = None"
  shows "saveFilter name groupName config parent reg
           \<noteq> Inl (Error ''Only filters that accept multiple values may have a query mode.'')"
  using assms by (simp add: saveFilter_def Let_def js_get_def)

lemma saveFilter_second_registration_throws:
  "saveFilter ''results.material.n_elements'' (Some ''elements'') numberHistogramQuantity None
      nElementsRegistry
     = Inl (Error ''Only filters that accept multiple values may have a query mode.'')"
  by (simp add: saveFilter_def nElementsRegistry_def numberHistogramQuantity_def Let_def
        js_get_def js_or_def)

text \<open>
  Claim C2 at a failing input. On the empty registry,
  \<open>saveFilter('optimade_filter', 'optimade', {multiple: false, queryMode: 'all'})\<close>
  returns and stores \<open>multiple = false\<close> with \<open>queryMode = 'all'\<close>: the guard reads the
  \<open>queryMode\<close> of the data object before the configuration's is assigned, and a new
  data object has none.
\<close>

theorem saveFilter_accepts_queryMode_without_multiple:
  "map_option (\<lambda>reg. map_option (\<lambda>data. (js_get data ''multiple'', js_get data ''queryMode''))
        (map_of (filterData reg) ''optimade_filter''))
     (case saveFilter ''optimade_filter'' (Some ''optimade'')
             [''multiple'' \<mapsto> JBool False, ''queryMode'' \<mapsto> JStr ''all''] None emptyRegistry of
        Inl e \<Rightarrow> None | Inr reg \<Rightarrow> Some reg)
     = Some (Some (JBool False, JStr ''all''))"
  by (simp add: saveFilter_def emptyRegistry_def js_get_def js_or_def Let_def)

subsection \<open>Abbreviations\<close>

lemma split_acc_nonempty: "split_acc sep acc s \<noteq> []"
  by (induction s arbitrary: acc) auto

lemma split_acc_last_no_sep:
  "sep \<notin> set acc \<Longrightarrow> sep \<notin> set (last (split_acc sep acc s))"
  by (induction s arbitrary: acc) (auto simp: split_acc_nonempty)

lemma split_acc_no_sep: "sep \<notin> set s \<Longrightarrow> split_acc sep acc s = [rev acc @ s]"
  by (induction s arbitrary: acc) auto

lemma shortForm_no_dot: "CHR ''.'' \<notin> set (shortForm name)"
  by (simp add: shortForm_def pop_def split_def split_acc_last_no_sep)

lemma shortForm_of_dotless: "CHR ''.'' \<notin> set s \<Longrightarrow> shortForm s = s"
  by (simp add: shortForm_def pop_def split_def split_acc_no_sep)

lemma shortForm_idem: "shortForm (shortForm name) = shortForm name"
  by (simp add: shortForm_of_dotless shortForm_no_dot)

lemma countLoop_counts:
  "fst (countLoop (nameAbbreviationPairs names) (abbrs, reg)) a =
     (let c = length (filter (\<lambda>n. shortForm n = a) names)
      in if c = 0 then abbrs a else Some (c + (case abbrs a of None \<Rightarrow> 0 | Some k \<Rightarrow> k)))"
  by (induction names arbitrary: abbrs reg)
     (auto simp: nameAbbreviationPairs_def Let_def split: option.splits)

lemma countLoop_abbr:
  "filterAbbreviations (snd (countLoop (nameAbbreviationPairs names) (abbrs, reg))) x =
     (if x \<in> set names then Some x else filterAbbreviations reg x)"
  by (induction names arbitrary: abbrs reg) (auto simp: nameAbbreviationPairs_def)

lemma countLoop_full:
  "filterFullnames (snd (countLoop (nameAbbreviationPairs names) (abbrs, reg))) x =
     (if x \<in> set names then Some x else filterFullnames reg x)"
  by (induction names arbitrary: abbrs reg) (auto simp: nameAbbreviationPairs_def)

lemma assignLoop_abbr:
  "filterAbbreviations (assignLoop abbrs (nameAbbreviationPairs names) reg) x =
     (if x \<in> set names \<and> abbrs (shortForm x) = Some 1 then Some (shortForm x)
      else filterAbbreviations reg x)"
  by (induction names arbitrary: reg) (auto simp: nameAbbreviationPairs_def)

lemma assignLoop_full:
  "filterFullnames (assignLoop abbrs (nameAbbreviationPairs names) reg) x =
     (case filter (\<lambda>n. shortForm n = x \<and> abbrs x = Some 1) names of
        [] \<Rightarrow> filterFullnames reg x
      | n # ns \<Rightarrow> Some (last (n # ns)))"
proof (induction names arbitrary: reg)
  case Nil
  then show ?case by (simp add: nameAbbreviationPairs_def)
next
  case (Cons m names)
  have step: "nameAbbreviationPairs (m # names) = (m, shortForm m) # nameAbbreviationPairs names"
    by (simp add: nameAbbreviationPairs_def)
  show ?case
    unfolding step
    by (simp add: Cons.IH split: list.splits)
qed

lemma buildAbbreviations_abbr:
  "filterAbbreviations (buildAbbreviations reg) x =
     (if x \<in> set (map fst (filterData reg)) then
        (if shortFormCount reg (shortForm x) = 1 then Some (shortForm x) else Some x)
      else filterAbbreviations reg x)"
proof -
  obtain abbrs reg1 where c: "countLoop (nameAbbreviationPairs (map fst (filterData reg))) (Map.empty, reg) = (abbrs, reg1)"
    by (cases "countLoop (nameAbbreviationPairs (map fst (filterData reg))) (Map.empty, reg)")
  have a: "abbrs a = Some (Suc 0) \<longleftrightarrow> shortFormCount reg a = Suc 0" for a
    using countLoop_counts [of "map fst (filterData reg)" Map.empty reg a]
    by (simp add: c shortFormCount_def Let_def)
  have f: "filterAbbreviations reg1 y = (if y \<in> set (map fst (filterData reg)) then Some y else filterAbbreviations reg y)" for y
    using countLoop_abbr [of "map fst (filterData reg)" Map.empty reg y] by (simp add: c)
  show ?thesis
    by (simp add: buildAbbreviations_def Let_def c assignLoop_abbr a f del: set_map)
qed

lemma filter_single:
  "length (filter P xs) = 1 \<Longrightarrow> n \<in> set xs \<Longrightarrow> P n \<Longrightarrow> filter P xs = [n]"
proof -
  assume l: "length (filter P xs) = 1" and n: "n \<in> set xs" "P n"
  then obtain y where y: "filter P xs = [y]"
    by (cases "filter P xs") auto
  from n have "n \<in> set (filter P xs)" by simp
  with y show ?thesis by simp
qed

lemma buildAbbreviations_full_unique:
  assumes "n \<in> set (map fst (filterData reg))" "shortFormCount reg (shortForm n) = 1"
  shows "filterFullnames (buildAbbreviations reg) (shortForm n) = Some n"
proof -
  obtain abbrs reg1 where c: "countLoop (nameAbbreviationPairs (map fst (filterData reg))) (Map.empty, reg) = (abbrs, reg1)"
    by (cases "countLoop (nameAbbreviationPairs (map fst (filterData reg))) (Map.empty, reg)")
  have a: "abbrs a = Some (Suc 0) \<longleftrightarrow> shortFormCount reg a = Suc 0" for a
    using countLoop_counts [of "map fst (filterData reg)" Map.empty reg a]
    by (simp add: c shortFormCount_def Let_def)
  have "filter (\<lambda>m. shortForm m = shortForm n) (map fst (filterData reg)) = [n]"
    using assms by (intro filter_single) (simp_all add: shortFormCount_def)
  then show ?thesis
    using assms(2) by (simp add: buildAbbreviations_def Let_def c assignLoop_full a)
qed

lemma buildAbbreviations_full_name:
  assumes "n \<in> set (map fst (filterData reg))" "shortFormCount reg (shortForm n) \<noteq> 1"
  shows "filterFullnames (buildAbbreviations reg) n = Some n"
proof -
  obtain abbrs reg1 where c: "countLoop (nameAbbreviationPairs (map fst (filterData reg))) (Map.empty, reg) = (abbrs, reg1)"
    by (cases "countLoop (nameAbbreviationPairs (map fst (filterData reg))) (Map.empty, reg)")
  have a: "abbrs a = Some (Suc 0) \<longleftrightarrow> shortFormCount reg a = Suc 0" for a
    using countLoop_counts [of "map fst (filterData reg)" Map.empty reg a]
    by (simp add: c shortFormCount_def Let_def)
  have f: "filterFullnames reg1 n = Some n"
    using countLoop_full [of "map fst (filterData reg)" Map.empty reg n] assms(1) by (simp add: c)
  have "filter (\<lambda>m. shortForm m = n \<and> abbrs n = Some 1) (map fst (filterData reg)) = []"
  proof (rule ccontr)
    assume "filter (\<lambda>m. shortForm m = n \<and> abbrs n = Some 1) (map fst (filterData reg)) \<noteq> []"
    then obtain m where m: "shortForm m = n" "abbrs n = Some 1"
      by (auto simp: filter_empty_conv)
    from m(1) have "shortForm n = n" using shortForm_idem [of m] by simp
    with m(2) a assms(2) show False by simp
  qed
  then show ?thesis
    by (simp add: buildAbbreviations_def Let_def c assignLoop_full f)
qed

lemma saveFilter_default_new:
  "map_of (filterData reg) name = None \<Longrightarrow>
   saveFilter name (Some ''mechanical'') Map.empty parent reg =
     Inr (reg\<lparr>filterGroups :=
            (case filterGroups reg ''mechanical'' of
               Some members \<Rightarrow> (filterGroups reg)(''mechanical'' \<mapsto> set_add members name)
             | None \<Rightarrow> (filterGroups reg)(''mechanical'' \<mapsto> [name])),
          filterData := AList.update name defaultData (filterData reg)\<rparr>)"
  by (simp add: saveFilter_def Let_def js_get_def js_or_def defaultData_def)

lemma registerFilter_modulus:
  "(case registerFilter ''results.properties.mechanical.bulk_modulus'' (Some ''mechanical'')
           nestedQuantity [(''type'', termQuantity)] emptyRegistry of
      Inl e \<Rightarrow> Inl e
    | Inr reg \<Rightarrow>
        registerFilter ''results.properties.mechanical.shear_modulus'' (Some ''mechanical'')
          nestedQuantity [(''type'', termQuantity)] reg)
   = Inr modulusRegistry"
  by (simp add: registerFilter_def saveFilter_default_new emptyRegistry_def set_add_def
        modulusRegistry_def nestedQuantity_def termQuantity_def)

lemma shortForm_modulus:
  "shortForm ''results.properties.mechanical.bulk_modulus'' = ''bulk_modulus''"
  "shortForm ''results.properties.mechanical.bulk_modulus.type'' = ''type''"
  "shortForm ''results.properties.mechanical.shear_modulus'' = ''shear_modulus''"
  "shortForm ''results.properties.mechanical.shear_modulus.type'' = ''type''"
  by (simp_all add: shortForm_def pop_def split_def)

lemma shortFormCount_modulus:
  "shortFormCount modulusRegistry ''bulk_modulus'' = 1"
  "shortFormCount modulusRegistry ''type'' = 2"
  by (simp_all add: shortFormCount_def modulusRegistry_def shortForm_modulus)

text \<open>
  Claim C6, as the code has it. For every registered filter name \<open>n\<close>:
  \<open>fullname(abbreviate(n)) = n\<close>; when the short form \<open>s\<close> of \<open>n\<close> is the short form
  of no other registered name, \<open>abbreviate(n) = s\<close>, \<open>fullname(s) = n\<close> and
  \<open>abbreviate(fullname(s)) = s\<close>; otherwise \<open>abbreviate(n) = n\<close> and \<open>fullname(n) = n\<close>.
\<close>

theorem abbreviation_roundtrip:
  assumes "n \<in> set (map fst (filterData reg))"
  shows "Option.bind (abbreviate (buildAbbreviations reg) n) (fullname (buildAbbreviations reg)) = Some n
    \<and> (shortFormCount reg (shortForm n) = 1 \<longrightarrow>
          abbreviate (buildAbbreviations reg) n = Some (shortForm n)
        \<and> fullname (buildAbbreviations reg) (shortForm n) = Some n
        \<and> Option.bind (fullname (buildAbbreviations reg) (shortForm n))
             (abbreviate (buildAbbreviations reg)) = Some (shortForm n))
    \<and> (shortFormCount reg (shortForm n) \<noteq> 1 \<longrightarrow>
          abbreviate (buildAbbreviations reg) n = Some n
        \<and> fullname (buildAbbreviations reg) n = Some n)"
  using assms
  by (simp add: abbreviate_def fullname_def buildAbbreviations_abbr
        buildAbbreviations_full_unique buildAbbreviations_full_name del: set_map)

theorem abbreviation_roundtrip_witness:
  "abbreviate (buildAbbreviations modulusRegistry) ''results.properties.mechanical.bulk_modulus''
      = Some ''bulk_modulus''
   \<and> fullname (buildAbbreviations modulusRegistry) ''bulk_modulus''
      = Some ''results.properties.mechanical.bulk_modulus''
   \<and> abbreviate (buildAbbreviations modulusRegistry)
        ''results.properties.mechanical.bulk_modulus.type''
      = Some ''results.properties.mechanical.bulk_modulus.type''
   \<and> fullname (buildAbbreviations modulusRegistry)
        ''results.properties.mechanical.bulk_modulus.type''
      = Some ''results.properties.mechanical.bulk_modulus.type''"
proof -
  have r: "''results.properties.mechanical.bulk_modulus'' \<in> set (map fst (filterData modulusRegistry))"
      "''results.properties.mechanical.bulk_modulus.type'' \<in> set (map fst (filterData modulusRegistry))"
    by (simp_all add: modulusRegistry_def)
  show ?thesis
    using abbreviation_roundtrip [OF r(1)] abbreviation_roundtrip [OF r(2)]
    by (simp add: shortForm_modulus shortFormCount_modulus)
qed

text \<open>
  Claim C6 as stated fails for a name with a dot whose short form is unique:
  \<open>abbreviate(fullname('results.material.n_elements'))\<close> is \<open>'n_elements'\<close>, not the
  name.
\<close>

theorem abbreviation_of_fullname_counterexample:
  "shortFormCount nElementsRegistry (shortForm ''results.material.n_elements'') = 1
   \<and> Option.bind (fullname (buildAbbreviations nElementsRegistry) ''results.material.n_elements'')
        (abbreviate (buildAbbreviations nElementsRegistry)) = Some ''n_elements''"
  by (simp add: shortFormCount_def nElementsRegistry_def buildAbbreviations_def
        nameAbbreviationPairs_def shortForm_nElements abbreviate_def fullname_def Let_def)

section \<open>Properties of the search bar\<close>

lemmas regex_defs = equalsRe_def ltegteRe_def ltegteSandwichRe_def reString_def reOp_def spaces_def
lemmas char_defs = isWhiteSpace_def isLineTerminator_def consumes_def star.simps

lemma shortForm_nElements': "pop (split ''results.material.n_elements'' CHR ''.'') = ''n_elements''"
  by (simp add: pop_def split_def)

lemma shortForm_materialName: "pop (split ''results.material.material_name'' CHR ''.'') = ''material_name''"
  by (simp add: pop_def split_def)

lemma sample_quantityFullnames:
  "quantityFullnames sampleSearchQuantities =
     [''n_elements'' \<mapsto> ''results.material.n_elements'',
      ''material_name'' \<mapsto> ''results.material.material_name'']"
  by (simp add: quantityFullnames_def sampleSearchQuantities_def quantityNames_def
        abbreviationList_def nonUniques_def startsWith_def set_add_def
        shortForm_nElements' shortForm_materialName)

lemma match_sandwich_equals: "match ''3 < n_elements < 7'' equalsRe = None"
  by (simp add: match_def regex_defs char_defs)

lemma match_sandwich_ltegte:
  "match ''3 < n_elements < 7'' ltegteRe =
     Some [1 \<mapsto> ''3 < n_elements'', 2 \<mapsto> ''<'', 3 \<mapsto> ''7'']"
  by (simp add: match_def regex_defs char_defs)

text \<open>
  Claim C1 at a failing input. With \<open>n_elements\<close> the abbreviation of a registered
  integer quantity, the input \<open>3 < n_elements < 7\<close> is matched by the expression of the
  simple range query, whose first group is greedy and takes \<open>3 < n_elements\<close>; neither
  that nor \<open>7\<close> is a quantity, so the handler sets the error and returns before the
  sandwiched branch.
\<close>

theorem handleSubmit_sandwich_is_unknown_quantity:
  "handleSubmit sampleSearchQuantities sampleQuantities ''3 < n_elements < 7''
     = SetError ''Unknown quantity name''"
  by (simp add: handleSubmit_def trim_def isWhiteSpace_def match_sandwich_equals
        match_sandwich_ltegte sample_quantityFullnames Map_get_def Set_has_def Let_def)

subsection \<open>The matcher and the language of an expression\<close>

lemma rests_simps [simp]:
  "rests [] = {}" "rests (st # sts) = insert (fst st) (rests sts)"
  "rests (xs @ ys) = rests xs \<union> rests ys"
  by (auto simp: rests_def)

lemma rests_concat_map:
  "rests (concat (map f sts)) = (\<Union>st \<in> set sts. rests (f st))"
  by (auto simp: rests_def)

lemma star_unfold:
  "rests (star m st) = (\<Union>st' \<in> {st' \<in> set (m st). consumes st st'}. rests (star m st')) \<union> {fst st}"
  by (subst star.simps) (simp add: rests_concat_map)

lemma star_sound:
  "(\<And>u c. rests (m (u, c)) \<subseteq> {u'. \<exists>w \<in> A. u = w @ u'})
     \<Longrightarrow> rests (star m st) \<subseteq> {u'. \<exists>w \<in> stars A. fst st = w @ u'}"
proof (induction m st rule: star.induct)
  case (1 m st)
  show ?case
  proof
    fix u' assume "u' \<in> rests (star m st)"
    then consider "u' = fst st"
      | st1 where "st1 \<in> set (m st)" "consumes st st1" "u' \<in> rests (star m st1)"
      by (subst (asm) star_unfold) auto
    then show "u' \<in> {u'. \<exists>w \<in> stars A. fst st = w @ u'}"
    proof cases
      case 1
      then show ?thesis using stars.nil [of A] by auto
    next
      case 2
      from 2(1,2) have "st1 \<in> set (filter (consumes st) (m st))" by simp
      from "1.IH" [OF this "1.prems"] 2(3) obtain w' where w': "w' \<in> stars A" "fst st1 = w' @ u'"
        by auto
      from 2(1) have "fst st1 \<in> rests (m (fst st, snd st))" by (auto simp: rests_def)
      with "1.prems" [of "fst st" "snd st"] obtain w where w: "w \<in> A" "fst st = w @ fst st1"
        by auto
      from w w' have "w @ w' \<in> stars A" "fst st = (w @ w') @ u'"
        by (auto intro: stars.step)
      then show ?thesis by blast
    qed
  qed
qed

lemma star_complete:
  assumes m: "\<And>u c. {u'. \<exists>w \<in> A. u = w @ u'} \<subseteq> rests (m (u, c))"
  shows "w \<in> stars A \<Longrightarrow> u' \<in> rests (star m (w @ u', c))"
proof (induction w arbitrary: c rule: stars.induct)
  case nil
  show ?case by (subst star_unfold) simp
next
  case (step a v)
  show ?case
  proof (cases "a = []")
    case True
    then show ?thesis using step.IH by simp
  next
    case False
    have "v @ u' \<in> rests (m (a @ v @ u', c))"
      using m [of "a @ v @ u'" c] step.hyps(1) by auto
    then obtain st1 where st1: "st1 \<in> set (m (a @ v @ u', c))" "fst st1 = v @ u'"
      by (auto simp: rests_def)
    have c: "consumes (a @ v @ u', c) st1"
      using False st1(2) by (simp add: consumes_def)
    have "u' \<in> rests (star m (v @ u', snd st1))" by (rule step.IH)
    then have "u' \<in> rests (star m st1)" using st1(2) by (metis prod.collapse)
    with st1(1) c
    have "u' \<in> (\<Union>st' \<in> {st' \<in> set (m (a @ v @ u', c)). consumes (a @ v @ u', c) st'}.
                  rests (star m st'))"
      by blast
    then have "u' \<in> rests (star m (a @ v @ u', c))"
      by (subst star_unfold) (rule UnI1)
    then show ?thesis by simp
  qed
qed

lemma run_lang:
  "anchorFree r \<Longrightarrow> rests (run inp r (u, c)) = {u'. \<exists>w \<in> lang r. u = w @ u'}"
proof (induction r arbitrary: u c)
  case (Atom a)
  then show ?case by (cases u) auto
next
  case Empty
  then show ?case by simp
next
  case (Seq r1 r2)
  have r2: "rests (run inp r2 st) = {u'. \<exists>w \<in> lang r2. fst st = w @ u'}" for st
    using Seq.IH(2) [of "fst st" "snd st"] Seq.prems by simp
  have "rests (run inp (Seq r1 r2) (u, c)) =
          (\<Union>st \<in> set (run inp r1 (u, c)). {u'. \<exists>w \<in> lang r2. fst st = w @ u'})"
    by (simp add: rests_concat_map r2)
  also have "\<dots> = (\<Union>u1 \<in> rests (run inp r1 (u, c)). {u'. \<exists>w \<in> lang r2. u1 = w @ u'})"
    by (auto simp: rests_def)
  also have "\<dots> = {u'. \<exists>w \<in> lang (Seq r1 r2). u = w @ u'}"
    using Seq.IH(1) [of u c] Seq.prems by fastforce
  finally show ?case .
next
  case (Alt r1 r2)
  then show ?case by auto
next
  case (Star r)
  have s: "rests (run inp r (u, c)) = {u'. \<exists>w \<in> lang r. u = w @ u'}" for u c
    using Star by simp
  have "rests (star (run inp r) (u, c)) \<subseteq> {u'. \<exists>w \<in> stars (lang r). u = w @ u'}"
    using star_sound [of "run inp r" "lang r" "(u, c)"] s by simp
  moreover have "{u'. \<exists>w \<in> stars (lang r). u = w @ u'} \<subseteq> rests (star (run inp r) (u, c))"
    using star_complete [of "lang r" "run inp r"] s by auto
  ultimately show ?case by auto
next
  case (Opt r)
  have s: "rests (run inp r (u, c)) = {u'. \<exists>w \<in> lang r. u = w @ u'}"
    using Opt by simp
  have "rests (filter (consumes (u, c)) (run inp r (u, c)))
          = {u' \<in> rests (run inp r (u, c)). length u' < length u}"
    by (auto simp: rests_def consumes_def)
  then show ?case using s by auto
next
  case (Group n r)
  have "rests (run inp (Group n r) (u, c)) = rests (run inp r (u, c))"
    by (simp add: rests_def image_image)
  then show ?case using Group by simp
next
  case InputStart
  then show ?case by simp
next
  case InputEnd
  then show ?case by simp
qed


lemma concat_map_concat_map:
  "concat (map (\<lambda>x. concat (map f (g x))) xs) = concat (map f (concat (map g xs)))"
  by (induction xs) simp_all

lemma run_seqs_append:
  "run inp (seqs (rs @ qs)) st = concat (map (run inp (seqs qs)) (run inp (seqs rs) st))"
proof (induction rs arbitrary: st)
  case Nil
  show ?case by simp
next
  case (Cons r rs)
  have "run inp (seqs (rs @ qs)) = (\<lambda>st. concat (map (run inp (seqs qs)) (run inp (seqs rs) st)))"
    using Cons.IH by (intro ext)
  then show ?case by (simp add: concat_map_concat_map)
qed

lemma run_seqs_end:
  "run inp (seqs (rs @ [InputEnd])) st \<noteq> [] \<longleftrightarrow> [] \<in> rests (run inp (seqs rs) st)"
  by (force simp: run_seqs_append rests_def image_iff)

lemma match_anchored:
  "match s (Seq InputStart r) \<noteq> None \<longleftrightarrow> run s r (s, Map.empty) \<noteq> []"
proof -
  have z: "run s (Seq InputStart r) (drop i s, Map.empty) = []" if "0 < i" "i \<le> length s" for i
  proof -
    from that have "length (drop i s) \<noteq> length s" by simp
    then show ?thesis by simp
  qed
  have "concat (map (\<lambda>i. run s (Seq InputStart r) (drop i s, Map.empty)) [Suc 0..<Suc (length s)]) = []"
    using z by auto
  then have "concat (map (\<lambda>i. run s (Seq InputStart r) (drop i s, Map.empty)) [0..<Suc (length s)])
               = run s r (s, Map.empty)"
    by (simp add: upt_conv_Cons del: upt_Suc)
  then show ?thesis
    by (simp add: match_def split: list.splits)
qed

lemma anchorFree_seqs: "anchorFree (seqs rs) \<longleftrightarrow> (\<forall>r \<in> set rs. anchorFree r)"
  by (induction rs) auto

lemma match_lang:
  assumes "\<forall>r \<in> set rs. anchorFree r"
  shows "match s (seqs (InputStart # rs @ [InputEnd])) \<noteq> None \<longleftrightarrow> s \<in> lang (seqs rs)"
proof -
  have "match s (seqs (InputStart # rs @ [InputEnd])) \<noteq> None
          \<longleftrightarrow> [] \<in> rests (run s (seqs rs) (s, Map.empty))"
    using match_anchored [of s "seqs (rs @ [InputEnd])"] by (simp add: run_seqs_end)
  then show ?thesis
    using assms by (simp add: run_lang anchorFree_seqs)
qed


lemma stars_single: "stars {[x] | x. P x} = {w. \<forall>x \<in> set w. P x}"
proof
  show "stars {[x] | x. P x} \<subseteq> {w. \<forall>x \<in> set w. P x}"
  proof
    fix w assume "w \<in> stars {[x] | x. P x}"
    then show "w \<in> {w. \<forall>x \<in> set w. P x}"
      by (induction rule: stars.induct) auto
  qed
  show "{w. \<forall>x \<in> set w. P x} \<subseteq> stars {[x] | x. P x}"
  proof
    fix w assume "w \<in> {w. \<forall>x \<in> set w. P x}"
    then have "\<forall>x \<in> set w. P x" by simp
    then show "w \<in> stars {[x] | x. P x}"
    proof (induction w)
      case Nil
      show ?case by (rule stars.nil)
    next
      case (Cons x w)
      then have "[x] \<in> {[x] | x. P x}" "w \<in> stars {[x] | x. P x}" by auto
      then have "[x] @ w \<in> stars {[x] | x. P x}" by (rule stars.step)
      then show ?case by simp
    qed
  qed
qed

lemma lang_SeqI: "u \<in> lang r1 \<Longrightarrow> v \<in> lang r2 \<Longrightarrow> u @ v \<in> lang (Seq r1 r2)"
  by auto

lemma lang_seqs_ConsI:
  "u \<in> lang r \<Longrightarrow> v \<in> lang (seqs rs) \<Longrightarrow> u @ v \<in> lang (seqs (r # rs))"
  by auto

lemma lang_reString_intro:
  assumes "w \<noteq> []" "\<not> isWhiteSpace (hd w)" "\<not> isWhiteSpace (last w)"
    and "\<forall>x \<in> set w. \<not> isLineTerminator x"
  shows "w \<in> lang reString"
proof (cases "length w = 1")
  case True
  then obtain x where w: "w = [x]" by (cases w) auto
  with assms have "[x] \<in> lang (Atom NonSpace)" by simp
  moreover have "[] \<in> lang (Opt (Seq (Star (Atom AnyChar)) (Atom NonSpace)))" by simp
  ultimately have "[x] @ [] \<in> lang reString"
    unfolding reString_def by (rule lang_SeqI)
  with w show ?thesis by simp
next
  case False
  with assms(1) obtain x m y where w: "w = x # m @ [y]"
    by (cases w; cases "tl w" rule: rev_cases) auto
  with assms have "\<not> isWhiteSpace x" "\<not> isWhiteSpace y" "\<forall>z \<in> set m. \<not> isLineTerminator z"
    by auto
  then have "m \<in> lang (Star (Atom AnyChar))" "[y] \<in> lang (Atom NonSpace)" "[x] \<in> lang (Atom NonSpace)"
    using stars_single [of "\<lambda>z. \<not> isLineTerminator z"] by auto
  then have "m @ [y] \<in> lang (Opt (Seq (Star (Atom AnyChar)) (Atom NonSpace)))"
      "[x] \<in> lang (Atom NonSpace)"
    using lang_SeqI [of m "Star (Atom AnyChar)" "[y]" "Atom NonSpace"] by simp_all
  then have "[x] @ (m @ [y]) \<in> lang reString"
    unfolding reString_def by (intro lang_SeqI)
  with w show ?thesis by simp
qed

lemma lang_reString_elim:
  assumes "w \<in> lang reString"
  shows "w \<noteq> [] \<and> \<not> isWhiteSpace (hd w) \<and> \<not> isWhiteSpace (last w)"
  using assms by (auto simp: reString_def)

lemma lang_seqs_Cons:
  "w \<in> lang (seqs (r # rs)) \<longleftrightarrow> (\<exists>u v. w = u @ v \<and> u \<in> lang r \<and> v \<in> lang (seqs rs))"
  by auto

lemma sandwich_lang_subset:
  assumes lt: "\<forall>x \<in> set s. \<not> isLineTerminator x"
    and w: "s \<in> lang (seqs [spaces, Group 1 reString, spaces, Group 2 reOp, spaces,
                 Group 3 reString, spaces, Group 4 reOp, spaces, Group 5 reString, spaces])"
  shows "s \<in> lang (seqs [spaces, Group 1 reString, spaces, Group 2 reOp, spaces,
                 Group 3 reString, spaces])"
proof -
  from w obtain sp0 w1 sp1 o1 sp2 w3 sp3 o2 sp4 w5 sp5
    where s: "s = sp0 @ w1 @ sp1 @ o1 @ sp2 @ w3 @ sp3 @ o2 @ sp4 @ w5 @ sp5"
      and m: "sp0 \<in> lang spaces" "w1 \<in> lang reString" "sp1 \<in> lang spaces" "o1 \<in> lang reOp"
        "sp2 \<in> lang spaces" "w3 \<in> lang reString" "w5 \<in> lang reString" "sp5 \<in> lang spaces"
    unfolding lang_seqs_Cons by (auto simp del: lang.simps(3) simp: lang.simps(7))
  let ?u = "w3 @ sp3 @ o2 @ sp4 @ w5"
  from m(6,7) have e: "w3 \<noteq> []" "\<not> isWhiteSpace (hd w3)" "w5 \<noteq> []" "\<not> isWhiteSpace (last w5)"
    using lang_reString_elim by blast+
  have "?u \<in> lang reString"
  proof (rule lang_reString_intro)
    show "?u \<noteq> []" using e by simp
    show "\<not> isWhiteSpace (hd ?u)" using e by simp
    show "\<not> isWhiteSpace (last ?u)" using e by simp
    show "\<forall>x \<in> set ?u. \<not> isLineTerminator x" using lt s by auto
  qed
  with m have "sp0 @ w1 @ sp1 @ o1 @ sp2 @ ?u @ sp5 @ []
      \<in> lang (seqs [spaces, Group 1 reString, spaces, Group 2 reOp, spaces, Group 3 reString, spaces])"
    by (intro lang_seqs_ConsI) simp_all
  with s show ?thesis by simp
qed


lemma sandwich_implies_ltegte:
  assumes "\<forall>x \<in> set s. \<not> isLineTerminator x" "match s ltegteSandwichRe \<noteq> None"
  shows "match s ltegteRe \<noteq> None"
proof -
  let ?W = "[spaces, Group 1 reString, spaces, Group 2 reOp, spaces,
             Group 3 reString, spaces, Group 4 reOp, spaces, Group 5 reString, spaces]"
  let ?S = "[spaces, Group 1 reString, spaces, Group 2 reOp, spaces, Group 3 reString, spaces]"
  have a: "\<forall>r \<in> set ?W. anchorFree r" "\<forall>r \<in> set ?S. anchorFree r"
    by (simp_all add: spaces_def reString_def reOp_def)
  have w: "ltegteSandwichRe = seqs (InputStart # ?W @ [InputEnd])"
    and s: "ltegteRe = seqs (InputStart # ?S @ [InputEnd])"
    by (simp_all add: ltegteSandwichRe_def ltegteRe_def)
  from assms(2) have "s \<in> lang (seqs ?W)"
    unfolding w using match_lang [OF a(1)] by blast
  with assms(1) have "s \<in> lang (seqs ?S)" by (rule sandwich_lang_subset)
  then show ?thesis
    unfolding s using match_lang [OF a(2)] by blast
qed

text \<open>
  The captures of a match. A state that the matcher reaches through an expression without
  groups has the captures it started with and has consumed a word of the expression; a
  group records the word that its body consumed. So a match of the equality expression or
  of the simple range expression splits the whole input into white space, the captured
  groups and the operator, and such a match exists exactly for the inputs of the language.
\<close>

lemma star_set:
  "st' \<in> set (star m st) \<longleftrightarrow>
     st' = st \<or> (\<exists>st1 \<in> set (m st). consumes st st1 \<and> st' \<in> set (star m st1))"
  by (subst star.simps) auto

lemma star_keeps_captures:
  "(\<And>a b. b \<in> set (m a) \<Longrightarrow> snd b = snd a) \<Longrightarrow> st' \<in> set (star m st) \<Longrightarrow> snd st' = snd st"
proof (induction m st rule: star.induct)
  case (1 m st)
  from "1.prems"(2) consider "st' = st"
    | st1 where "st1 \<in> set (m st)" "consumes st st1" "st' \<in> set (star m st1)"
    by (subst (asm) star_set) auto
  then show ?case
  proof cases
    case 1
    then show ?thesis by simp
  next
    case 2
    from 2(1,2) have "st1 \<in> set (filter (consumes st) (m st))" by simp
    from "1.IH" [OF this "1.prems"(1) 2(3)] have "snd st' = snd st1" by simp
    with "1.prems"(1) [OF 2(1)] show ?thesis by simp
  qed
qed

lemma run_keeps_captures:
  "groupFree r \<Longrightarrow> st' \<in> set (run inp r st) \<Longrightarrow> snd st' = snd st"
proof (induction r arbitrary: st st')
  case (Atom a)
  then show ?case by (auto split: list.splits if_splits)
next
  case (Seq r1 r2)
  from Seq.prems obtain st1 where "st1 \<in> set (run inp r1 st)" "st' \<in> set (run inp r2 st1)"
    by auto
  with Seq.IH [of st1 st] Seq.IH(2) [of st' st1] Seq.prems(1) show ?case by simp
next
  case (Star r)
  then show ?case using star_keeps_captures [of "run inp r" st' st] by auto
qed (auto split: if_splits)

lemma run_groupFree:
  assumes "groupFree r" "anchorFree r" "st' \<in> set (run inp r st)"
  shows "snd st' = snd st \<and> (\<exists>w \<in> lang r. fst st = w @ fst st')"
proof -
  have "fst st' \<in> rests (run inp r (fst st, snd st))"
    using assms(3) by (simp add: rests_def)
  then show ?thesis
    using run_lang [OF assms(2), of inp "fst st" "snd st"] run_keeps_captures [OF assms(1,3)]
    by auto
qed

lemma run_Group:
  assumes "groupFree r" "anchorFree r" "st' \<in> set (run inp (Group n r) st)"
  shows "\<exists>w \<in> lang r. fst st = w @ fst st' \<and> snd st' = (snd st)(n \<mapsto> w)"
proof -
  from assms(3) obtain st1 where st1: "st1 \<in> set (run inp r st)" "fst st' = fst st1"
    "snd st' = (snd st1)(n \<mapsto> take (length (fst st) - length (fst st1)) (fst st))"
    by auto
  from run_groupFree [OF assms(1,2) st1(1)] obtain w
    where w: "snd st1 = snd st" "w \<in> lang r" "fst st = w @ fst st1" by auto
  then have "take (length (fst st) - length (fst st1)) (fst st) = w" by simp
  with st1 w show ?thesis by auto
qed

lemma run_Seq:
  "st'' \<in> set (run inp (Seq r1 r2) st) \<Longrightarrow>
     \<exists>st' \<in> set (run inp r1 st). st'' \<in> set (run inp r2 st')"
  by auto


lemma match_anchored_Some:
  assumes "match s (Seq InputStart r) = Some m"
  shows "\<exists>u. (u, m) \<in> set (run s r (s, Map.empty))"
proof -
  have z: "run s (Seq InputStart r) (drop i s, Map.empty) = []" if "0 < i" "i \<le> length s" for i
  proof -
    from that have "length (drop i s) \<noteq> length s" by simp
    then show ?thesis by simp
  qed
  have "concat (map (\<lambda>i. run s (Seq InputStart r) (drop i s, Map.empty)) [Suc 0..<Suc (length s)]) = []"
    using z by auto
  then have "concat (map (\<lambda>i. run s (Seq InputStart r) (drop i s, Map.empty)) [0..<Suc (length s)])
               = run s r (s, Map.empty)"
    by (simp add: upt_conv_Cons del: upt_Suc)
  with assms obtain st sts where "run s r (s, Map.empty) = st # sts" "m = snd st"
    by (auto simp: match_def split: list.splits)
  then have "(fst st, m) \<in> set (run s r (s, Map.empty))" by simp
  then show ?thesis ..
qed

lemma run_seqs_Cons:
  "st'' \<in> set (run inp (seqs (r # rs)) st) \<Longrightarrow>
     \<exists>st' \<in> set (run inp r st). st'' \<in> set (run inp (seqs rs) st')"
  by auto

lemma step_plain:
  assumes "groupFree r" "anchorFree r" "st'' \<in> set (run inp (seqs (r # rs)) st)"
  shows "\<exists>w st'. w \<in> lang r \<and> fst st = w @ fst st' \<and> snd st' = snd st
           \<and> st'' \<in> set (run inp (seqs rs) st')"
proof -
  from run_seqs_Cons [OF assms(3)] obtain st'
    where s: "st' \<in> set (run inp r st)" "st'' \<in> set (run inp (seqs rs) st')" by blast
  from run_groupFree [OF assms(1,2) s(1)] s(2) show ?thesis by blast
qed

lemma step_group:
  assumes "groupFree r" "anchorFree r" "st'' \<in> set (run inp (seqs (Group n r # rs)) st)"
  shows "\<exists>w st'. w \<in> lang r \<and> fst st = w @ fst st' \<and> snd st' = (snd st)(n \<mapsto> w)
           \<and> st'' \<in> set (run inp (seqs rs) st')"
proof -
  from run_seqs_Cons [OF assms(3)] obtain st'
    where s: "st' \<in> set (run inp (Group n r) st)" "st'' \<in> set (run inp (seqs rs) st')" by blast
  from run_Group [OF assms(1,2) s(1)] s(2) show ?thesis by blast
qed

lemma step_end:
  assumes "st'' \<in> set (run inp (seqs [InputEnd]) st)"
  shows "fst st = [] \<and> st'' = st"
  using assms by (auto split: if_splits)

lemma free_regexes:
  "groupFree spaces" "anchorFree spaces" "groupFree reString" "anchorFree reString"
  "groupFree reOp" "anchorFree reOp" "groupFree (Atom a)" "anchorFree (Atom a)"
  by (simp_all add: regex_defs)

lemma run_ltegte:
  assumes "(u, m) \<in> set (run s (seqs [spaces, Group 1 reString, spaces, Group 2 reOp, spaces,
              Group 3 reString, spaces, InputEnd]) (s, Map.empty))"
  shows "\<exists>sp0 w1 sp1 w2 sp2 w3 sp3.
           s = sp0 @ w1 @ sp1 @ w2 @ sp2 @ w3 @ sp3
           \<and> sp0 \<in> lang spaces \<and> w1 \<in> lang reString \<and> sp1 \<in> lang spaces \<and> w2 \<in> lang reOp
           \<and> sp2 \<in> lang spaces \<and> w3 \<in> lang reString \<and> sp3 \<in> lang spaces
           \<and> m 1 = Some w1 \<and> m 2 = Some w2 \<and> m 3 = Some w3"
proof -
  from step_plain [OF free_regexes(1,2) assms, unfolded fst_conv snd_conv] obtain sp0 st1
    where 1: "sp0 \<in> lang spaces" "s = sp0 @ fst st1" "snd st1 = Map.empty"
      "(u, m) \<in> set (run s (seqs [Group 1 reString, spaces, Group 2 reOp, spaces,
              Group 3 reString, spaces, InputEnd]) st1)" by blast
  from step_group [OF free_regexes(3,4) 1(4)] obtain w1 st2
    where 2: "w1 \<in> lang reString" "fst st1 = w1 @ fst st2" "snd st2 = (snd st1)(1 \<mapsto> w1)"
      "(u, m) \<in> set (run s (seqs [spaces, Group 2 reOp, spaces,
              Group 3 reString, spaces, InputEnd]) st2)" by blast
  from step_plain [OF free_regexes(1,2) 2(4)] obtain sp1 st3
    where 3: "sp1 \<in> lang spaces" "fst st2 = sp1 @ fst st3" "snd st3 = snd st2"
      "(u, m) \<in> set (run s (seqs [Group 2 reOp, spaces,
              Group 3 reString, spaces, InputEnd]) st3)" by blast
  from step_group [OF free_regexes(5,6) 3(4)] obtain w2 st4
    where 4: "w2 \<in> lang reOp" "fst st3 = w2 @ fst st4" "snd st4 = (snd st3)(2 \<mapsto> w2)"
      "(u, m) \<in> set (run s (seqs [spaces, Group 3 reString, spaces, InputEnd]) st4)" by blast
  from step_plain [OF free_regexes(1,2) 4(4)] obtain sp2 st5
    where 5: "sp2 \<in> lang spaces" "fst st4 = sp2 @ fst st5" "snd st5 = snd st4"
      "(u, m) \<in> set (run s (seqs [Group 3 reString, spaces, InputEnd]) st5)" by blast
  from step_group [OF free_regexes(3,4) 5(4)] obtain w3 st6
    where 6: "w3 \<in> lang reString" "fst st5 = w3 @ fst st6" "snd st6 = (snd st5)(3 \<mapsto> w3)"
      "(u, m) \<in> set (run s (seqs [spaces, InputEnd]) st6)" by blast
  from step_plain [OF free_regexes(1,2) 6(4)] obtain sp3 st7
    where 7: "sp3 \<in> lang spaces" "fst st6 = sp3 @ fst st7" "snd st7 = snd st6"
      "(u, m) \<in> set (run s (seqs [InputEnd]) st7)" by blast
  from step_end [OF 7(4)] have 8: "fst st7 = []" "m = snd st7" by auto
  have "s = sp0 @ w1 @ sp1 @ w2 @ sp2 @ w3 @ sp3"
    using 1(2) 2(2) 3(2) 4(2) 5(2) 6(2) 7(2) 8(1) by simp
  moreover have "m 1 = Some w1 \<and> m 2 = Some w2 \<and> m 3 = Some w3"
    using 1(3) 2(3) 3(3) 4(3) 5(3) 6(3) 7(3) 8(2) by simp
  ultimately show ?thesis
    using 1(1) 2(1) 3(1) 4(1) 5(1) 6(1) 7(1) by blast
qed

lemma run_equals:
  assumes "(u, m) \<in> set (run s (seqs [spaces, Group 1 reString, spaces, Atom (Lit CHR ''=''),
              spaces, Group 2 reString, spaces, InputEnd]) (s, Map.empty))"
  shows "\<exists>sp0 w1 sp1 sp2 w2 sp3.
           s = sp0 @ w1 @ sp1 @ CHR ''='' # sp2 @ w2 @ sp3
           \<and> sp0 \<in> lang spaces \<and> w1 \<in> lang reString \<and> sp1 \<in> lang spaces
           \<and> sp2 \<in> lang spaces \<and> w2 \<in> lang reString \<and> sp3 \<in> lang spaces
           \<and> m 1 = Some w1 \<and> m 2 = Some w2"
proof -
  from step_plain [OF free_regexes(1,2) assms, unfolded fst_conv snd_conv] obtain sp0 st1
    where 1: "sp0 \<in> lang spaces" "s = sp0 @ fst st1" "snd st1 = Map.empty"
      "(u, m) \<in> set (run s (seqs [Group 1 reString, spaces, Atom (Lit CHR ''=''),
              spaces, Group 2 reString, spaces, InputEnd]) st1)" by blast
  from step_group [OF free_regexes(3,4) 1(4)] obtain w1 st2
    where 2: "w1 \<in> lang reString" "fst st1 = w1 @ fst st2" "snd st2 = (snd st1)(1 \<mapsto> w1)"
      "(u, m) \<in> set (run s (seqs [spaces, Atom (Lit CHR ''=''),
              spaces, Group 2 reString, spaces, InputEnd]) st2)" by blast
  from step_plain [OF free_regexes(1,2) 2(4)] obtain sp1 st3
    where 3: "sp1 \<in> lang spaces" "fst st2 = sp1 @ fst st3" "snd st3 = snd st2"
      "(u, m) \<in> set (run s (seqs [Atom (Lit CHR ''=''),
              spaces, Group 2 reString, spaces, InputEnd]) st3)" by blast
  from step_plain [OF free_regexes(7,8) 3(4)] obtain e st4
    where 4: "e \<in> lang (Atom (Lit CHR ''=''))" "fst st3 = e @ fst st4" "snd st4 = snd st3"
      "(u, m) \<in> set (run s (seqs [spaces, Group 2 reString, spaces, InputEnd]) st4)" by blast
  from step_plain [OF free_regexes(1,2) 4(4)] obtain sp2 st5
    where 5: "sp2 \<in> lang spaces" "fst st4 = sp2 @ fst st5" "snd st5 = snd st4"
      "(u, m) \<in> set (run s (seqs [Group 2 reString, spaces, InputEnd]) st5)" by blast
  from step_group [OF free_regexes(3,4) 5(4)] obtain w2 st6
    where 6: "w2 \<in> lang reString" "fst st5 = w2 @ fst st6" "snd st6 = (snd st5)(2 \<mapsto> w2)"
      "(u, m) \<in> set (run s (seqs [spaces, InputEnd]) st6)" by blast
  from step_plain [OF free_regexes(1,2) 6(4)] obtain sp3 st7
    where 7: "sp3 \<in> lang spaces" "fst st6 = sp3 @ fst st7" "snd st7 = snd st6"
      "(u, m) \<in> set (run s (seqs [InputEnd]) st7)" by blast
  from step_end [OF 7(4)] have 8: "fst st7 = []" "m = snd st7" by auto
  from 4(1) have e: "e = [CHR ''='']" by simp
  have "s = sp0 @ w1 @ sp1 @ CHR ''='' # sp2 @ w2 @ sp3"
    using 1(2) 2(2) 3(2) 4(2) 5(2) 6(2) 7(2) 8(1) e by simp
  moreover have "m 1 = Some w1 \<and> m 2 = Some w2"
    using 1(3) 2(3) 3(3) 4(3) 5(3) 6(3) 7(3) 8(2) by simp
  ultimately show ?thesis
    using 1(1) 2(1) 3(1) 5(1) 6(1) 7(1) by blast
qed

lemma lang_spaces: "w \<in> lang spaces \<longleftrightarrow> (\<forall>c \<in> set w. isWhiteSpace c)"
  using stars_single [of isWhiteSpace] by (simp add: spaces_def)

lemma lang_reOp: "lang reOp = {''<'', ''>'', ''>=''}"
  by (auto simp: reOp_def)

lemma equalsRe_anchored:
  "equalsRe = Seq InputStart (seqs [spaces, Group 1 reString, spaces, Atom (Lit CHR ''=''),
                 spaces, Group 2 reString, spaces, InputEnd])"
  by (simp add: equalsRe_def)

lemma ltegteRe_anchored:
  "ltegteRe = Seq InputStart (seqs [spaces, Group 1 reString, spaces, Group 2 reOp, spaces,
                 Group 3 reString, spaces, InputEnd])"
  by (simp add: ltegteRe_def)

lemma match_equalsRe_Some:
  assumes "match s equalsRe = Some m"
  shows "\<exists>sp0 w1 sp1 sp2 w2 sp3.
           s = sp0 @ w1 @ sp1 @ CHR ''='' # sp2 @ w2 @ sp3
           \<and> sp0 \<in> lang spaces \<and> w1 \<in> lang reString \<and> sp1 \<in> lang spaces
           \<and> sp2 \<in> lang spaces \<and> w2 \<in> lang reString \<and> sp3 \<in> lang spaces
           \<and> m 1 = Some w1 \<and> m 2 = Some w2"
proof -
  from match_anchored_Some [OF assms [unfolded equalsRe_anchored]] obtain u
    where "(u, m) \<in> set (run s (seqs [spaces, Group 1 reString, spaces, Atom (Lit CHR ''=''),
              spaces, Group 2 reString, spaces, InputEnd]) (s, Map.empty))" ..
  then show ?thesis by (rule run_equals)
qed

lemma match_ltegteRe_Some:
  assumes "match s ltegteRe = Some m"
  shows "\<exists>sp0 w1 sp1 w2 sp2 w3 sp3.
           s = sp0 @ w1 @ sp1 @ w2 @ sp2 @ w3 @ sp3
           \<and> sp0 \<in> lang spaces \<and> w1 \<in> lang reString \<and> sp1 \<in> lang spaces \<and> w2 \<in> lang reOp
           \<and> sp2 \<in> lang spaces \<and> w3 \<in> lang reString \<and> sp3 \<in> lang spaces
           \<and> m 1 = Some w1 \<and> m 2 = Some w2 \<and> m 3 = Some w3"
proof -
  from match_anchored_Some [OF assms [unfolded ltegteRe_anchored]] obtain u
    where "(u, m) \<in> set (run s (seqs [spaces, Group 1 reString, spaces, Group 2 reOp, spaces,
              Group 3 reString, spaces, InputEnd]) (s, Map.empty))" ..
  then show ?thesis by (rule run_ltegte)
qed

lemma match_equalsRe_lang:
  "match s equalsRe \<noteq> None \<longleftrightarrow>
     s \<in> lang (seqs [spaces, Group 1 reString, spaces, Atom (Lit CHR ''=''), spaces,
                     Group 2 reString, spaces])"
proof -
  let ?S = "[spaces, Group 1 reString, spaces, Atom (Lit CHR ''=''), spaces,
             Group 2 reString, spaces]"
  have a: "\<forall>r \<in> set ?S. anchorFree r" by (simp add: spaces_def reString_def)
  have e: "equalsRe = seqs (InputStart # ?S @ [InputEnd])" by (simp add: equalsRe_def)
  show ?thesis unfolding e using match_lang [OF a] by blast
qed

lemma match_ltegteRe_lang:
  "match s ltegteRe \<noteq> None \<longleftrightarrow>
     s \<in> lang (seqs [spaces, Group 1 reString, spaces, Group 2 reOp, spaces,
                     Group 3 reString, spaces])"
proof -
  let ?S = "[spaces, Group 1 reString, spaces, Group 2 reOp, spaces, Group 3 reString, spaces]"
  have a: "\<forall>r \<in> set ?S. anchorFree r" by (simp add: spaces_def reString_def reOp_def)
  have e: "ltegteRe = seqs (InputStart # ?S @ [InputEnd])" by (simp add: ltegteRe_def)
  show ?thesis unfolding e using match_lang [OF a] by blast
qed

lemma rangeQuery_SetFilter:
  "rangeQuery sq quantityFullname qv = SetFilter name (Range queryValue) \<Longrightarrow> queryValue = qv"
  by (auto simp: rangeQuery_def split: option.splits type_data.splits if_splits)

text \<open>
  For an input without line terminators, an input that the expression of the sandwiched
  branch matches is matched by the expression of the simple range branch, which is tried
  first and always returns. So no submitted range has two bounds.
\<close>

lemma handleSubmit_range_has_one_bound:
  assumes "\<forall>x \<in> set inputValue. \<not> isLineTerminator x"
    and "handleSubmit sq quantities inputValue = SetFilter name (Range queryValue)"
  shows "\<exists>key v. queryValue = [key \<mapsto> v]"
proof (cases "match inputValue ltegteRe")
  case None
  with assms(1) have "match inputValue ltegteSandwichRe = None"
    using sandwich_implies_ltegte by blast
  with None assms(2) show ?thesis
    by (auto simp: handleSubmit_def Let_def split: if_splits option.splits)
next
  case (Some ltegte)
  with assms(2) show ?thesis
    by (auto simp: handleSubmit_def Let_def split: if_splits option.splits
             dest!: rangeQuery_SetFilter)
qed

subsection \<open>The simple range branch\<close>

text \<open>
  Whenever the simple range branch submits a filter for a quantity that is its right
  operand, the bound is named by \<open>opMap\<close> of the operator as typed, and its value is
  the left operand.
\<close>

lemma handleSubmit_quantity_on_right:
  assumes "trim inputValue \<noteq> []"
    and "match inputValue equalsRe = None"
    and "match inputValue ltegteRe = Some ltegte"
    and "\<not> Set_has quantities (Map_get (quantityFullnames sq) (ltegte 1))"
    and "handleSubmit sq quantities inputValue = SetFilter name (Range queryValue)"
  shows "name = Map_get (quantityFullnames sq) (ltegte 3)
     \<and> queryValue = [toString (opMap (toString (ltegte 2))) \<mapsto> parseFloat (toString (ltegte 1))]"
  using assms
  by (auto simp: handleSubmit_def Let_def rangeQuery_def
           split: if_splits option.splits type_data.splits)

lemma match_right_equals: "match ''5 < n_elements'' equalsRe = None"
  by (simp add: match_def regex_defs char_defs)

lemma match_right_ltegte:
  "match ''5 < n_elements'' ltegteRe = Some [1 \<mapsto> ''5'', 2 \<mapsto> ''<'', 3 \<mapsto> ''n_elements'']"
  by (simp add: match_def regex_defs char_defs)

lemma parseFloat_5: "parseFloat ''5'' = Finite 5"
  by (simp add: parseFloat_def trimStart_def isWhiteSpace_def unsignedLiteral_def startsWith_def
        isDigit_def digitsValue_def exponentPart_def Let_def)

lemma rangeQuery_nElements:
  "rangeQuery sampleSearchQuantities (Some ''results.material.n_elements'') queryValue
     = SetFilter (Some ''results.material.n_elements'') (Range queryValue)"
  by (simp add: rangeQuery_def sampleSearchQuantities_def toString_def startsWith_def)

text \<open>
  Claim C4 at a failing input. With the quantity on the right of the operator, the simple
  range branch still maps the operator through \<open>opMap\<close>: \<open>5 < n_elements\<close> gives the
  bound \<open>lt\<close>, not \<open>gt\<close>.
\<close>

theorem handleSubmit_filter_on_right_not_reversed:
  "handleSubmit sampleSearchQuantities sampleQuantities ''5 < n_elements''
     = SetFilter (Some ''results.material.n_elements'') (Range [''lt'' \<mapsto> Finite 5])"
  by (simp add: handleSubmit_def trim_def isWhiteSpace_def match_right_equals
        match_right_ltegte sample_quantityFullnames Map_get_def Set_has_def Let_def
        sampleQuantities_def toString_def parseFloat_5 isNaN_def rangeQuery_nElements
        opMap_def)

text \<open>
  Where an operator sits in an input with one operator character, and what is left of a
  string between white space, are determined by the input; and a key of
  \<open>quantityFullnames\<close> is the last dot-segment of a name of the table, so that it holds
  only characters of that name.
\<close>

lemma unique_position:
  assumes "filter P L = []" "filter P R = []" "P c" "P c'" "L @ c # R = L' @ c' # R'"
  shows "L' = L \<and> c' = c \<and> R' = R"
proof -
  have "filter P (L @ c # R) = [c]" using assms(1-3) by simp
  then have "filter P L' @ c' # filter P R' = [c]" using assms(4,5) by simp
  then have f: "filter P L' = []" "c' = c" by (auto simp: append_eq_Cons_conv)
  have t: "takeWhile (Not \<circ> P) (M @ d # N) = M" if "filter P M = []" "P d" for M d N
    using that by (simp add: filter_empty_conv takeWhile_append2)
  have "takeWhile (Not \<circ> P) (L @ c # R) = L" using assms(1,3) by (rule t)
  moreover have "takeWhile (Not \<circ> P) (L' @ c' # R') = L'" using f(1) assms(4) by (rule t)
  ultimately have "L' = L" using assms(5) by simp
  with f assms(5) show ?thesis by simp
qed

lemma dropWhile_blank:
  assumes "\<forall>c \<in> set a. W c" "w \<noteq> []" "\<not> W (hd w)"
  shows "dropWhile W (a @ w @ b) = w @ b"
  using assms by (cases w) (simp_all add: dropWhile_append2)

lemma trim_unique:
  assumes "\<forall>c \<in> set a. W c" "\<forall>c \<in> set a'. W c" "\<forall>c \<in> set b. W c" "\<forall>c \<in> set b'. W c"
    and "w \<noteq> []" "\<not> W (hd w)" "\<not> W (last w)"
    and "w' \<noteq> []" "\<not> W (hd w')" "\<not> W (last w')"
    and "a @ w @ b = a' @ w' @ b'"
  shows "w' = w"
proof -
  have "dropWhile W (a @ w @ b) = w @ b"
    using assms(1,5,6) by (rule dropWhile_blank)
  moreover have "dropWhile W (a' @ w' @ b') = w' @ b'"
    using assms(2,8,9) by (rule dropWhile_blank)
  ultimately have "w @ b = w' @ b'" using assms(11) by simp
  then have e: "rev b @ rev w @ [] = rev b' @ rev w' @ []" by (metis rev_append append_Nil2)
  have "dropWhile W (rev b @ rev w @ []) = rev w @ []"
    using assms(3,5,7) by (intro dropWhile_blank) (simp_all add: hd_rev)
  moreover have "dropWhile W (rev b' @ rev w' @ []) = rev w' @ []"
    using assms(4,8,10) by (intro dropWhile_blank) (simp_all add: hd_rev)
  ultimately have "rev w = rev w'" using e by simp
  then show ?thesis by simp
qed

lemma trim_nonempty:
  assumes "x \<in> set s" "\<not> isWhiteSpace x"
  shows "trim s \<noteq> []"
proof -
  let ?d = "dropWhile isWhiteSpace s"
  from assms have d: "?d \<noteq> []" by (auto simp: dropWhile_eq_Nil_conv)
  then have "\<not> isWhiteSpace (hd ?d)" by (rule hd_dropWhile)
  moreover from d have "hd ?d \<in> set (rev ?d)" by simp
  ultimately have "dropWhile isWhiteSpace (rev ?d) \<noteq> []" by (auto simp: dropWhile_eq_Nil_conv)
  then show ?thesis by (simp add: trim_def)
qed

lemma quantityLoop_fullnames:
  "snd (quantityLoop nu ps (a, f)) k = Some n \<Longrightarrow> f k = Some n \<or> (n, k) \<in> set ps"
proof (induction ps arbitrary: a f)
  case Nil
  then show ?case by simp
next
  case (Cons p ps)
  obtain name abbr where p: "p = (name, abbr)" by (cases p)
  show ?case
  proof (cases "abbr \<in> set nu")
    case True
    with Cons.prems p have "snd (quantityLoop nu ps (a, f)) k = Some n" by simp
    from Cons.IH [OF this] show ?thesis by auto
  next
    case False
    with Cons.prems p
    have "snd (quantityLoop nu ps (a(name \<mapsto> abbr), f(abbr \<mapsto> name))) k = Some n" by simp
    from Cons.IH [OF this] have "(f(abbr \<mapsto> name)) k = Some n \<or> (n, k) \<in> set ps" .
    with p show ?thesis by (auto split: if_splits)
  qed
qed

lemma set_last_split_acc: "set (last (split_acc sep acc s)) \<subseteq> set acc \<union> set s"
proof (induction s arbitrary: acc)
  case Nil
  show ?case by simp
next
  case (Cons c cs)
  from Cons.IH [of "[]"] Cons.IH [of "c # acc"] show ?case
    by (auto simp: split_acc_nonempty)
qed

lemma zip_map_self: "(a, b) \<in> set (zip xs (map g xs)) \<Longrightarrow> a \<in> set xs \<and> b = g a"
  by (induction xs) auto

lemma quantityFullnames_key:
  assumes "quantityFullnames sq k = Some n"
  shows "n \<in> fst ` set sq \<and> set k \<subseteq> set n"
proof -
  from assms have "(n, k) \<in> set (zip (quantityNames sq) (abbreviationList sq))"
    unfolding quantityFullnames_def using quantityLoop_fullnames by fastforce
  then have "n \<in> set (quantityNames sq)" "k = pop (split n CHR ''.'')"
    unfolding abbreviationList_def by (auto dest: zip_map_self)
  then show ?thesis
    using set_last_split_acc [of "CHR ''.''" "[]" n]
    by (auto simp: quantityNames_def pop_def split_def)
qed

lemma operator_key_unresolved:
  assumes "\<forall>name \<in> fst ` set sq. CHR ''<'' \<notin> set name \<and> CHR ''>'' \<notin> set name"
    and "CHR ''<'' \<in> set k \<or> CHR ''>'' \<in> set k"
  shows "\<not> Set_has quantities (Map_get (quantityFullnames sq) (Some k))"
proof (cases "quantityFullnames sq k")
  case None
  then show ?thesis by (simp add: Map_get_def Set_has_def)
next
  case (Some n)
  from quantityFullnames_key [OF Some] assms show ?thesis by blast
qed

lemma white_not_operator:
  "isWhiteSpace c \<Longrightarrow> c \<noteq> CHR ''<'' \<and> c \<noteq> CHR ''>'' \<and> c \<noteq> CHR ''=''"
  by (auto simp: isWhiteSpace_def)

lemma isBlank_no_operator:
  "isBlank w \<Longrightarrow> CHR ''<'' \<notin> set w \<and> CHR ''>'' \<notin> set w \<and> CHR ''='' \<notin> set w"
  unfolding isBlank_def using white_not_operator by blast

lemma isOperand_no_operator:
  "isOperand x \<Longrightarrow> CHR ''<'' \<notin> set x \<and> CHR ''>'' \<notin> set x \<and> CHR ''='' \<notin> set x"
  unfolding isOperand_def by blast

lemma operator_not_white:
  "c = CHR ''<'' \<or> c = CHR ''>'' \<Longrightarrow> \<not> isWhiteSpace c \<and> \<not> isLineTerminator c \<and> c \<noteq> CHR ''=''"
  by (auto simp: isWhiteSpace_def isLineTerminator_def)

lemma isBlank_lang: "isBlank w \<Longrightarrow> w \<in> lang spaces"
  by (simp add: isBlank_def lang_spaces)

lemma isOperand_lang:
  "isOperand x \<Longrightarrow> \<forall>c \<in> set x. \<not> isLineTerminator c \<Longrightarrow> x \<in> lang reString"
  by (rule lang_reString_intro) (simp_all add: isOperand_def)

lemma isOperand_trim: "isOperand x \<Longrightarrow> trim (a @ x @ b) \<noteq> []"
proof -
  assume "isOperand x"
  then have "hd x \<in> set (a @ x @ b)" "\<not> isWhiteSpace (hd x)" by (simp_all add: isOperand_def)
  then show ?thesis by (rule trim_nonempty)
qed

lemma handleSubmit_strict_unresolved:
  assumes b: "isBlank pre" "isBlank mid1" "isBlank mid2" "isBlank post"
    and x: "isOperand x" and y: "isOperand y"
    and opc: "opc = CHR ''<'' \<or> opc = CHR ''>''"
    and lt: "\<forall>c \<in> set x. \<not> isLineTerminator c" "\<forall>c \<in> set y. \<not> isLineTerminator c"
    and ux: "\<not> Set_has quantities (Map_get (quantityFullnames sq) (Some x))"
    and uy: "\<not> Set_has quantities (Map_get (quantityFullnames sq) (Some y))"
  shows "handleSubmit sq quantities (pre @ x @ mid1 @ opc # mid2 @ y @ post)
           = SetError ''Unknown quantity name''"
proof -
  let ?L = "pre @ x @ mid1" and ?R = "mid2 @ y @ post"
  let ?s = "pre @ x @ mid1 @ opc # mid2 @ y @ post"
  have noP: "filter (\<lambda>c. c = CHR ''<'' \<or> c = CHR ''>'') ?L = []"
      "filter (\<lambda>c. c = CHR ''<'' \<or> c = CHR ''>'') ?R = []"
    using b [THEN isBlank_no_operator] x [THEN isOperand_no_operator] y [THEN isOperand_no_operator]
    by (simp_all add: filter_empty_conv) blast+
  have noEq: "CHR ''='' \<notin> set ?s"
    using b [THEN isBlank_no_operator] x [THEN isOperand_no_operator] y [THEN isOperand_no_operator]
      operator_not_white [OF opc]
    by auto
  have ne: "trim ?s \<noteq> []" using x by (rule isOperand_trim)
  have eq: "match ?s equalsRe = None"
  proof (rule ccontr)
    assume "match ?s equalsRe \<noteq> None"
    then obtain m where "match ?s equalsRe = Some m" by blast
    from match_equalsRe_Some [OF this] obtain sp0 w1 sp1 sp2 w2 sp3
      where d: "?s = sp0 @ w1 @ sp1 @ CHR ''='' # sp2 @ w2 @ sp3" by blast
    have "CHR ''='' \<in> set (sp0 @ w1 @ sp1 @ CHR ''='' # sp2 @ w2 @ sp3)" by simp
    then have "CHR ''='' \<in> set ?s" unfolding d .
    with noEq show False ..
  qed
  have "[opc] \<in> lang reOp" using opc unfolding lang_reOp by blast
  then have "pre @ x @ mid1 @ [opc] @ mid2 @ y @ post @ []
      \<in> lang (seqs [spaces, Group 1 reString, spaces, Group 2 reOp, spaces, Group 3 reString, spaces])"
    using b x y lt by (intro lang_seqs_ConsI) (simp_all add: isBlank_lang isOperand_lang)
  then have "?s \<in> lang (seqs [spaces, Group 1 reString, spaces, Group 2 reOp, spaces,
                 Group 3 reString, spaces])"
    by (simp del: lang.simps seqs.simps)
  then have "match ?s ltegteRe \<noteq> None" unfolding match_ltegteRe_lang .
  then obtain m where m: "match ?s ltegteRe = Some m" by blast
  from match_ltegteRe_Some [OF m] obtain sp0 w1 sp1 w2 sp2 w3 sp3
    where d: "?s = sp0 @ w1 @ sp1 @ w2 @ sp2 @ w3 @ sp3"
      and l: "sp0 \<in> lang spaces" "w1 \<in> lang reString" "sp1 \<in> lang spaces" "w2 \<in> lang reOp"
        "sp2 \<in> lang spaces" "w3 \<in> lang reString" "sp3 \<in> lang spaces"
      and g: "m 1 = Some w1" "m 3 = Some w3" by blast
  from l(4) obtain c t where w2: "w2 = c # t" "c = CHR ''<'' \<or> c = CHR ''>''" "t = [] \<or> t = ''=''"
    by (auto simp: lang_reOp)
  have "?L @ opc # ?R = (sp0 @ w1 @ sp1) @ c # (t @ sp2 @ w3 @ sp3)" using d w2(1) by simp
  from unique_position [OF noP opc w2(2) this]
  have u: "sp0 @ w1 @ sp1 = ?L" "t @ sp2 @ w3 @ sp3 = ?R" by simp_all
  from noEq have "CHR ''='' \<notin> set ?R" by simp
  moreover have "set (t @ sp2 @ w3 @ sp3) = set ?R" using u(2) by (rule arg_cong)
  then have "set t \<subseteq> set ?R" by (simp only: set_append) blast
  ultimately have t: "t = []" using w2(3) by auto
  have w: "\<forall>c \<in> set pre. isWhiteSpace c" "\<forall>c \<in> set mid1. isWhiteSpace c"
      "\<forall>c \<in> set mid2. isWhiteSpace c" "\<forall>c \<in> set post. isWhiteSpace c"
      "\<forall>c \<in> set sp0. isWhiteSpace c" "\<forall>c \<in> set sp1. isWhiteSpace c"
      "\<forall>c \<in> set sp2. isWhiteSpace c" "\<forall>c \<in> set sp3. isWhiteSpace c"
    using b l by (simp_all add: isBlank_def lang_spaces)
  have ex: "x \<noteq> []" "\<not> isWhiteSpace (hd x)" "\<not> isWhiteSpace (last x)"
    and ey: "y \<noteq> []" "\<not> isWhiteSpace (hd y)" "\<not> isWhiteSpace (last y)"
    using x y by (simp_all add: isOperand_def)
  have e1: "w1 \<noteq> []" "\<not> isWhiteSpace (hd w1)" "\<not> isWhiteSpace (last w1)"
    and e3: "w3 \<noteq> []" "\<not> isWhiteSpace (hd w3)" "\<not> isWhiteSpace (last w3)"
    using l(2,6) lang_reString_elim by blast+
  have "w1 = x"
    using w(1,5,2,6) ex e1 u(1) [symmetric] by (rule trim_unique)
  moreover have "w3 = y"
    using w(3,7,4,8) ey e3 u(2) [symmetric, unfolded t append_Nil] by (rule trim_unique)
  ultimately have "m 1 = Some x" "m 3 = Some y" using g by simp_all
  with ne eq m ux uy show ?thesis
    by (simp add: handleSubmit_def Let_def)
qed

lemma handleSubmit_inclusive_unresolved:
  assumes b: "isBlank pre" "isBlank mid1" "isBlank mid2" "isBlank post"
    and x: "isOperand x" and y: "isOperand y"
    and opc: "opc = CHR ''<'' \<or> opc = CHR ''>''"
    and lt: "\<forall>c \<in> set (x @ mid1). \<not> isLineTerminator c" "\<forall>c \<in> set y. \<not> isLineTerminator c"
    and names: "\<forall>name \<in> fst ` set sq. CHR ''<'' \<notin> set name \<and> CHR ''>'' \<notin> set name"
  shows "handleSubmit sq quantities (pre @ x @ mid1 @ opc # CHR ''='' # mid2 @ y @ post)
           = SetError ''Unknown quantity name''"
proof -
  let ?k = "x @ mid1 @ [opc]"
  let ?L = "pre @ ?k @ []" and ?R = "mid2 @ y @ post"
  let ?s = "pre @ x @ mid1 @ opc # CHR ''='' # mid2 @ y @ post"
  have ek: "?k \<noteq> []" "\<not> isWhiteSpace (hd ?k)" "\<not> isWhiteSpace (last ?k)"
    using x operator_not_white [OF opc] by (simp_all add: isOperand_def)
  have "\<forall>c \<in> set ?k. \<not> isLineTerminator c"
    using lt(1) operator_not_white [OF opc] by simp
  with ek have k: "?k \<in> lang reString" by (intro lang_reString_intro)
  have noP: "filter (\<lambda>c. c = CHR ''='') ?L = []" "filter (\<lambda>c. c = CHR ''='') ?R = []"
    using b [THEN isBlank_no_operator] x [THEN isOperand_no_operator] y [THEN isOperand_no_operator]
      operator_not_white [OF opc]
    by (simp_all add: filter_empty_conv) blast+
  have ne: "trim ?s \<noteq> []" using x by (rule isOperand_trim)
  have "[] \<in> lang spaces" "[CHR ''=''] \<in> lang (Atom (Lit CHR ''=''))"
    by (simp_all add: lang_spaces)
  then have "pre @ ?k @ [] @ [CHR ''=''] @ mid2 @ y @ post @ []
      \<in> lang (seqs [spaces, Group 1 reString, spaces, Atom (Lit CHR ''=''), spaces,
                     Group 2 reString, spaces])"
    using b k y lt(2) by (intro lang_seqs_ConsI) (simp_all add: isBlank_lang isOperand_lang)
  then have "?s \<in> lang (seqs [spaces, Group 1 reString, spaces, Atom (Lit CHR ''=''), spaces,
                 Group 2 reString, spaces])"
    by (simp del: lang.simps seqs.simps)
  then have "match ?s equalsRe \<noteq> None" unfolding match_equalsRe_lang .
  then obtain m where m: "match ?s equalsRe = Some m" by blast
  from match_equalsRe_Some [OF m] obtain sp0 w1 sp1 sp2 w2 sp3
    where d: "?s = sp0 @ w1 @ sp1 @ CHR ''='' # sp2 @ w2 @ sp3"
      and l: "sp0 \<in> lang spaces" "w1 \<in> lang reString" "sp1 \<in> lang spaces"
      and g: "m 1 = Some w1" by blast
  have "?L @ CHR ''='' # ?R = (sp0 @ w1 @ sp1) @ CHR ''='' # (sp2 @ w2 @ sp3)" using d by simp
  from unique_position [OF noP refl refl this]
  have u: "sp0 @ w1 @ sp1 = ?L" by simp
  have w: "\<forall>c \<in> set pre. isWhiteSpace c" "\<forall>c \<in> set []. isWhiteSpace c"
      "\<forall>c \<in> set sp0. isWhiteSpace c" "\<forall>c \<in> set sp1. isWhiteSpace c"
    using b l by (simp_all add: isBlank_def lang_spaces)
  have e1: "w1 \<noteq> []" "\<not> isWhiteSpace (hd w1)" "\<not> isWhiteSpace (last w1)"
    using l(2) lang_reString_elim by blast+
  have "w1 = ?k"
    using w(1,3,2,4) ek e1 u [symmetric] by (rule trim_unique)
  with g have g1: "m 1 = Some ?k" by simp
  have "CHR ''<'' \<in> set ?k \<or> CHR ''>'' \<in> set ?k" using opc by auto
  with names have "\<not> Set_has quantities (Map_get (quantityFullnames sq) (Some ?k))"
    by (rule operator_key_unresolved)
  with ne m g1 show ?thesis
    by (simp add: handleSubmit_def Let_def)
qed

lemma match_unresolved_equals: "match ''a < foo'' equalsRe = None"
  by (simp add: match_def regex_defs char_defs)

lemma match_unresolved_ltegte:
  "match ''a < foo'' ltegteRe = Some [1 \<mapsto> ''a'', 2 \<mapsto> ''<'', 3 \<mapsto> ''foo'']"
  by (simp add: match_def regex_defs char_defs)

lemma match_lte_equals:
  "match ''a <= foo'' equalsRe = Some [1 \<mapsto> ''a <'', 2 \<mapsto> ''foo'']"
  by (simp add: match_def regex_defs char_defs)

text \<open>
  Claim C5, as the code has it. Let the input be \<open>x op y\<close> on one line, with blanks
  before, between and after, with operands \<open>x\<close> and \<open>y\<close> and with \<open>op\<close> one of
  \<open><\<close>, \<open><=\<close>, \<open>>\<close> and \<open>>=\<close>; let no name of the table hold \<open><\<close> or
  \<open>>\<close>. When neither \<open>x\<close> nor \<open>y\<close> resolves to a quantity, the handler sets the error
  \<open>Unknown quantity name\<close>. With \<open><\<close> or \<open>>\<close> the equality expression does not match,
  the range expression matches and captures \<open>x\<close>, the operator and \<open>y\<close>; with \<open><=\<close> or
  \<open>>=\<close> the equality expression matches first, and its first group is \<open>x\<close>, the blank
  and \<open><\<close> or \<open>>\<close>, which is no key.
\<close>

theorem handleSubmit_single_bound_unresolved:
  assumes "isBlank pre" "isBlank mid1" "isBlank mid2" "isBlank post"
    and "isOperand x" "isOperand y"
    and "op \<in> {''<'', ''<='', ''>'', ''>=''}"
    and "inputValue = pre @ x @ mid1 @ op @ mid2 @ y @ post"
    and "\<forall>c \<in> set inputValue. \<not> isLineTerminator c"
    and "\<forall>name \<in> set (map fst sq). CHR ''<'' \<notin> set name \<and> CHR ''>'' \<notin> set name"
    and "\<not> Set_has quantities (Map_get (quantityFullnames sq) (Some x))"
    and "\<not> Set_has quantities (Map_get (quantityFullnames sq) (Some y))"
  shows "handleSubmit sq quantities inputValue = SetError ''Unknown quantity name''"
proof -
  have lt: "\<forall>c \<in> set x. \<not> isLineTerminator c" "\<forall>c \<in> set y. \<not> isLineTerminator c"
      "\<forall>c \<in> set (x @ mid1). \<not> isLineTerminator c"
    using assms(8,9) by auto
  have names: "\<forall>name \<in> fst ` set sq. CHR ''<'' \<notin> set name \<and> CHR ''>'' \<notin> set name"
    using assms(10) by simp
  from assms(7) consider "op = [CHR ''<'']" | "op = [CHR ''>'']"
    | "op = [CHR ''<'', CHR ''='']" | "op = [CHR ''>'', CHR ''='']" by auto
  then show ?thesis
  proof cases
    case 1
    with handleSubmit_strict_unresolved [OF assms(1-6) _ lt(1,2) assms(11,12), of "CHR ''<''"]
      assms(8) show ?thesis by simp
  next
    case 2
    with handleSubmit_strict_unresolved [OF assms(1-6) _ lt(1,2) assms(11,12), of "CHR ''>''"]
      assms(8) show ?thesis by simp
  next
    case 3
    with handleSubmit_inclusive_unresolved [OF assms(1-6) _ lt(3,2) names, of "CHR ''<''"]
      assms(8) show ?thesis by simp
  next
    case 4
    with handleSubmit_inclusive_unresolved [OF assms(1-6) _ lt(3,2) names, of "CHR ''>''"]
      assms(8) show ?thesis by simp
  qed
qed

theorem handleSubmit_single_bound_unresolved_witness:
  "\<not> Set_has sampleQuantities (Map_get (quantityFullnames sampleSearchQuantities) (Some ''a''))
   \<and> \<not> Set_has sampleQuantities (Map_get (quantityFullnames sampleSearchQuantities) (Some ''foo''))
   \<and> handleSubmit sampleSearchQuantities sampleQuantities ''a < foo''
        = SetError ''Unknown quantity name''
   \<and> handleSubmit sampleSearchQuantities sampleQuantities ''a>foo''
        = SetError ''Unknown quantity name''
   \<and> handleSubmit sampleSearchQuantities sampleQuantities ''a <= foo''
        = SetError ''Unknown quantity name''
   \<and> handleSubmit sampleSearchQuantities sampleQuantities '' a >=  foo ''
        = SetError ''Unknown quantity name''"
proof -
  have b: "isBlank []" "isBlank '' ''" "isBlank ''  ''"
    by (simp_all add: isBlank_def isWhiteSpace_def)
  have p: "isOperand ''a''" "isOperand ''foo''"
    by (simp_all add: isOperand_def isWhiteSpace_def)
  have n: "\<forall>name \<in> set (map fst sampleSearchQuantities). CHR ''<'' \<notin> set name \<and> CHR ''>'' \<notin> set name"
    by (simp add: sampleSearchQuantities_def)
  have u: "\<not> Set_has sampleQuantities (Map_get (quantityFullnames sampleSearchQuantities) (Some ''a''))"
      "\<not> Set_has sampleQuantities (Map_get (quantityFullnames sampleSearchQuantities) (Some ''foo''))"
    by (simp_all add: sample_quantityFullnames Map_get_def Set_has_def)
  have "handleSubmit sampleSearchQuantities sampleQuantities ''a < foo''
          = SetError ''Unknown quantity name''"
    using handleSubmit_single_bound_unresolved
      [where op = "''<''", OF b(1) b(2) b(2) b(1) p _ refl _ n u]
    by (simp add: isLineTerminator_def)
  moreover have "handleSubmit sampleSearchQuantities sampleQuantities ''a>foo''
          = SetError ''Unknown quantity name''"
    using handleSubmit_single_bound_unresolved
      [where op = "''>''", OF b(1) b(1) b(1) b(1) p _ refl _ n u]
    by (simp add: isLineTerminator_def)
  moreover have "handleSubmit sampleSearchQuantities sampleQuantities ''a <= foo''
          = SetError ''Unknown quantity name''"
    using handleSubmit_single_bound_unresolved
      [where op = "''<=''", OF b(1) b(2) b(2) b(1) p _ refl _ n u]
    by (simp add: isLineTerminator_def)
  moreover have "handleSubmit sampleSearchQuantities sampleQuantities '' a >=  foo ''
          = SetError ''Unknown quantity name''"
    using handleSubmit_single_bound_unresolved
      [where op = "''>=''", OF b(2) b(2) b(3) b(2) p _ refl _ n u]
    by (simp add: isLineTerminator_def)
  ultimately show ?thesis using u by simp
qed

text \<open>
  Claim C5 as stated fails: for \<open>a < foo\<close>, where neither side resolves, the error is
  \<open>Unknown quantity name\<close> and not \<open>Invalid query\<close>.
\<close>

theorem handleSubmit_unresolved_counterexample:
  "\<not> Set_has sampleQuantities (Map_get (quantityFullnames sampleSearchQuantities) (Some ''a''))
   \<and> \<not> Set_has sampleQuantities (Map_get (quantityFullnames sampleSearchQuantities) (Some ''foo''))
   \<and> handleSubmit sampleSearchQuantities sampleQuantities ''a < foo''
        = SetError ''Unknown quantity name''"
  by (simp add: handleSubmit_def trim_def isWhiteSpace_def match_unresolved_equals
        match_unresolved_ltegte sample_quantityFullnames Map_get_def Set_has_def Let_def)

subsection \<open>The sandwiched branch\<close>

text \<open>
  The sandwiched branch is reached by an input with line breaks on both sides of the
  quantity, which neither of the first two expressions matches; there it builds both
  bounds, the first operator through \<open>opMapReverse\<close> and the second through \<open>opMap\<close>.
\<close>

lemma match_broken_equals:
  "match (''3 <'' @ [CHR 0x0A] @ ''n_elements'' @ [CHR 0x0A] @ ''< 7'') equalsRe = None"
  by (simp add: match_def regex_defs char_defs)

lemma match_broken_ltegte:
  "match (''3 <'' @ [CHR 0x0A] @ ''n_elements'' @ [CHR 0x0A] @ ''< 7'') ltegteRe = None"
  by (simp add: match_def regex_defs char_defs)

lemma match_broken_sandwich:
  "match (''3 <'' @ [CHR 0x0A] @ ''n_elements'' @ [CHR 0x0A] @ ''< 7'') ltegteSandwichRe
     = Some [1 \<mapsto> ''3'', 2 \<mapsto> ''<'', 3 \<mapsto> ''n_elements'', 4 \<mapsto> ''<'', 5 \<mapsto> ''7'']"
  by (simp add: match_def regex_defs char_defs)

lemma parseFloat_3_7: "parseFloat ''3'' = Finite 3" "parseFloat ''7'' = Finite 7"
  by (simp_all add: parseFloat_def trimStart_def isWhiteSpace_def unsignedLiteral_def startsWith_def
        isDigit_def digitsValue_def exponentPart_def Let_def)

lemma handleSubmit_sandwich_over_lines:
  "handleSubmit sampleSearchQuantities sampleQuantities
      (''3 <'' @ [CHR 0x0A] @ ''n_elements'' @ [CHR 0x0A] @ ''< 7'')
     = SetFilter (Some ''results.material.n_elements'')
         (Range [''gt'' \<mapsto> Finite 3, ''lt'' \<mapsto> Finite 7])"
  unfolding handleSubmit_def match_broken_equals match_broken_ltegte match_broken_sandwich
  by (simp add: trim_def isWhiteSpace_def sample_quantityFullnames Map_get_def Set_has_def Let_def
        sampleQuantities_def toString_def parseFloat_3_7 isNaN_def rangeQuery_nElements
        opMap_def opMapReverse_def)

section \<open>Properties of the search state store\<close>

lemma storeRun_append: "storeRun s (xs @ ys) = storeRun (storeRun s xs) ys"
  by (simp add: storeRun_def)

lemma latestRequest_storeStep: "latestRequest s \<le> latestRequest (storeStep s e)"
  by (cases e) simp_all

lemma latestRequest_storeRun: "latestRequest s \<le> latestRequest (storeRun s es)"
proof (induction es arbitrary: s)
  case Nil
  show ?case by (simp add: storeRun_def)
next
  case (Cons e es)
  have "latestRequest s \<le> latestRequest (storeStep s e)" by (rule latestRequest_storeStep)
  also have "\<dots> \<le> latestRequest (storeRun (storeStep s e) es)" by (rule Cons.IH)
  finally show ?case by (simp add: storeRun_def)
qed

lemma other_responses_dropped:
  "\<forall>e \<in> set es. \<exists>requestId r. e = ResponseArrived requestId r \<and> requestId \<noteq> latestRequest s
     \<Longrightarrow> storeRun s es = s"
  by (induction es) (auto simp: storeRun_def)

text \<open>
  Claim C9, for the store as the specification describes it. Let the fetch \<open>R1\<close> be
  issued with parameters \<open>p1\<close> and, after any events, the fetch \<open>R2\<close> with \<open>p2\<close>. Then,
  whatever happens afterwards, the response of \<open>R1\<close> changes nothing when it arrives.
  And when, after \<open>R2\<close>, only responses of other fetches arrive before and after the
  response of \<open>R2\<close>, the late response of \<open>R1\<close> among them, the store ends with the
  parameters and the response of \<open>R2\<close>.
\<close>

theorem stale_response_guard:
  assumes s1: "s1 = storeStep s0 (FetchIssued p1)"
    and s2: "s2 = storeStep (storeRun s1 es1) (FetchIssued p2)"
  shows "(\<forall>es. storeStep (storeRun s2 es) (ResponseArrived (latestRequest s1) r1) = storeRun s2 es)
     \<and> ((\<forall>e \<in> set (es2 @ es3).
            \<exists>requestId r. e = ResponseArrived requestId r \<and> requestId \<noteq> latestRequest s2) \<longrightarrow>
          currentParameters
            (storeRun s2 (es2 @ [ResponseArrived (latestRequest s2) r2] @ es3
                            @ [ResponseArrived (latestRequest s1) r1])) = p2
        \<and> shownResponse
            (storeRun s2 (es2 @ [ResponseArrived (latestRequest s2) r2] @ es3
                            @ [ResponseArrived (latestRequest s1) r1])) = Some r2)"
proof -
  have lt: "latestRequest s1 < latestRequest s2"
    using latestRequest_storeRun [of s1 es1] by (simp add: s2)
  have a: "storeStep (storeRun s2 es) (ResponseArrived (latestRequest s1) r1) = storeRun s2 es" for es
    using lt latestRequest_storeRun [of s2 es] by simp
  have b: "currentParameters
            (storeRun s2 (es2 @ [ResponseArrived (latestRequest s2) r2] @ es3
                            @ [ResponseArrived (latestRequest s1) r1])) = p2
        \<and> shownResponse
            (storeRun s2 (es2 @ [ResponseArrived (latestRequest s2) r2] @ es3
                            @ [ResponseArrived (latestRequest s1) r1])) = Some r2"
    if st: "\<forall>e \<in> set (es2 @ es3).
            \<exists>requestId r. e = ResponseArrived requestId r \<and> requestId \<noteq> latestRequest s2"
  proof -
    let ?s3 = "s2\<lparr>shownResponse := Some r2\<rparr>"
    have e2: "storeRun s2 es2 = s2"
      using st by (intro other_responses_dropped) auto
    have e3: "storeRun ?s3 es3 = ?s3"
      using st by (intro other_responses_dropped) auto
    have "storeRun s2 (es2 @ [ResponseArrived (latestRequest s2) r2] @ es3
                            @ [ResponseArrived (latestRequest s1) r1])
            = storeStep (storeRun (storeStep (storeRun s2 es2) (ResponseArrived (latestRequest s2) r2)) es3)
                (ResponseArrived (latestRequest s1) r1)"
      by (simp add: storeRun_def)
    also have "\<dots> = ?s3"
      using lt by (simp add: e2 e3)
    finally show ?thesis by (simp add: s2)
  qed
  from a b show ?thesis by blast
qed

theorem stale_response_guard_witness:
  "storeRun \<lparr>currentParameters = ''elements=H'', shownResponse = Some ''old'', latestRequest = 0\<rparr>
     [FetchIssued ''elements=C'', FetchIssued ''elements=O'', ResponseArrived 2 ''entries with O'',
      ResponseArrived 1 ''entries with C'']
     = \<lparr>currentParameters = ''elements=O'', shownResponse = Some ''entries with O'',
        latestRequest = 2\<rparr>"
proof -
  let ?s0 = "\<lparr>currentParameters = ''elements=H'', shownResponse = Some ''old'', latestRequest = 0\<rparr>"
  let ?s1 = "storeStep ?s0 (FetchIssued ''elements=C'')"
  let ?s2 = "storeStep (storeRun ?s1 []) (FetchIssued ''elements=O'')"
  have st: "\<forall>e \<in> set ([] @ [] :: (string, string) event list).
              \<exists>requestId r. e = ResponseArrived requestId r \<and> requestId \<noteq> latestRequest ?s2"
    by simp
  have l: "latestRequest ?s1 = 1" "latestRequest ?s2 = 2"
    by (simp_all add: storeRun_def)
  from stale_response_guard [OF refl refl, of ?s0 "''elements=C''" "[]" "''elements=O''"
        "''entries with C''" "[]" "[]" "''entries with O''"] st
  have "currentParameters (storeRun ?s2 ([] @ [ResponseArrived (latestRequest ?s2) ''entries with O'']
            @ [] @ [ResponseArrived (latestRequest ?s1) ''entries with C''])) = ''elements=O''
      \<and> shownResponse (storeRun ?s2 ([] @ [ResponseArrived (latestRequest ?s2) ''entries with O'']
            @ [] @ [ResponseArrived (latestRequest ?s1) ''entries with C''])) = Some ''entries with O''"
    by blast
  then show ?thesis
    by (simp add: storeRun_def)
qed

end
